theory Spec2Isabelle
  imports Main "HOL-Library.AList"
begin

section \<open>Python values and string primitives\<close>

text \<open>
  The planner works on model text (Python \<open>str\<close>) and on the values that
  \<open>json.loads\<close> / \<open>ast.literal_eval\<close> hand back. Strings are character lists; the
  character classes below are the ASCII part of Python's (\<open>str.strip\<close>, \<open>str.lower\<close>,
  \<open>str.isdigit\<close>): a character outside ASCII is neither white space, nor a digit, nor
  cased. Values cover the JSON domain. A \<open>float\<close> is the number it stands for,
  \<open>Finite m e\<close> being \<open>m * 2 ** e\<close>, or one of the two infinities (\<open>Infinity True\<close> the
  positive one) or NaN; \<open>json.loads\<close> yields all of them (\<open>1e999\<close> is \<open>inf\<close>).
\<close>

datatype py_error =
    KeyError | TypeError | AttributeError | ValueError | IndexError | OverflowError
  | JSONDecodeError | UnboundLocalError | OtherError string

datatype pyfloat = Finite int int | Infinity bool | NaN

datatype pyval =
    PNone
  | PBool bool
  | PInt int
  | PFloat pyfloat
  | PStr string
  | PList "pyval list"
  | PDict "(string \<times> pyval) list"

type_synonym pydict = "(string \<times> pyval) list"

definition is_space :: "char \<Rightarrow> bool" where
  "is_space c = (c \<in> set [CHR 0x09, CHR 0x0A, CHR 0x0B, CHR 0x0C, CHR 0x0D,
                           CHR 0x1C, CHR 0x1D, CHR 0x1E, CHR 0x1F, CHR 0x20])"

definition isdigit :: "char \<Rightarrow> bool" where
  "isdigit c = (c \<in> set ''0123456789'')"

definition lower_char :: "char \<Rightarrow> char" where
  "lower_char c =
     (case map_of (zip ''ABCDEFGHIJKLMNOPQRSTUVWXYZ'' ''abcdefghijklmnopqrstuvwxyz'') c of
        Some d \<Rightarrow> d
      | None \<Rightarrow> c)"

definition lower :: "string \<Rightarrow> string" where
  "lower s = map lower_char s"

definition strip :: "string \<Rightarrow> string" where
  "strip s = rev (dropWhile is_space (rev (dropWhile is_space s)))"

fun startswith :: "string \<Rightarrow> string \<Rightarrow> bool" where
  "startswith [] s = True"
| "startswith (p # ps) [] = False"
| "startswith (p # ps) (c # cs) = (p = c \<and> startswith ps cs)"

text \<open>\<open>sub in s\<close> on strings.\<close>

fun contains_str :: "string \<Rightarrow> string \<Rightarrow> bool" where
  "contains_str sub [] = (sub = [])"
| "contains_str sub (c # cs) = (startswith sub (c # cs) \<or> contains_str sub cs)"

text \<open>\<open>s.split(sep)\<close> for a one-character separator: never the empty list.\<close>

fun split_on :: "char \<Rightarrow> string \<Rightarrow> string list" where
  "split_on sep [] = [[]]"
| "split_on sep (c # cs) =
     (if c = sep then [] # split_on sep cs
      else (case split_on sep cs of
              [] \<Rightarrow> [[c]]
            | l # ls \<Rightarrow> (c # l) # ls))"

text \<open>\<open>s.replace(pat, "")\<close> for a non-empty pattern, scanning left to right.\<close>

function remove_str :: "string \<Rightarrow> string \<Rightarrow> string" where
  "remove_str pat [] = []"
| "remove_str pat (c # cs) =
     (if pat \<noteq> [] \<and> startswith pat (c # cs)
      then remove_str pat (drop (length pat) (c # cs))
      else c # remove_str pat cs)"
  by pat_completeness auto
termination
  by (relation "measure (\<lambda>(pat, s). length s)") (auto simp: neq_Nil_conv)

text \<open>\<open>s.find(c)\<close> and \<open>s.rfind(c)\<close> for one character: the index, or \<open>-1\<close>.\<close>

fun py_find :: "char \<Rightarrow> string \<Rightarrow> int" where
  "py_find c [] = -1"
| "py_find c (x # xs) =
     (if x = c then 0 else (let r = py_find c xs in if r = -1 then -1 else r + 1))"

fun py_rfind :: "char \<Rightarrow> string \<Rightarrow> int" where
  "py_rfind c [] = -1"
| "py_rfind c (x # xs) =
     (let r = py_rfind c xs in
      if r \<noteq> -1 then r + 1 else if x = c then 0 else -1)"

text \<open>\<open>s[i:j]\<close> with Python's clamping of both bounds.\<close>

definition slice_bound :: "nat \<Rightarrow> int \<Rightarrow> nat" where
  "slice_bound n i = (if i < 0 then nat (max 0 (int n + i)) else min (nat i) n)"

definition py_slice :: "'a list \<Rightarrow> int \<Rightarrow> int \<Rightarrow> 'a list" where
  "py_slice xs i j =
     (let a = slice_bound (length xs) i; b = slice_bound (length xs) j
      in take (b - a) (drop a xs))"

text \<open>\<open>xs[i]\<close>: negative indices count from the end, out of range raises.\<close>

definition py_index :: "'a list \<Rightarrow> int \<Rightarrow> py_error + 'a" where
  "py_index xs i =
     (if 0 \<le> i \<and> i < int (length xs) then Inr (xs ! nat i)
      else if i < 0 \<and> - int (length xs) \<le> i then Inr (xs ! nat (int (length xs) + i))
      else Inl IndexError)"

text \<open>\<open>str(n)\<close> for a natural number.\<close>

definition digit_char :: "nat \<Rightarrow> char" where
  "digit_char d = ''0123456789'' ! d"

function str_nat :: "nat \<Rightarrow> string" where
  "str_nat n = (if n < 10 then [digit_char n] else str_nat (n div 10) @ [digit_char (n mod 10)])"
  by pat_completeness auto
termination
  by (relation "measure id") auto

declare str_nat.simps [simp del]

text \<open>
  \<open>int(s)\<close> for a string, base 10: surrounding white space (here the six characters of
  C's \<open>isspace\<close>, fewer than \<open>str.strip\<close> removes), one optional sign, then digits in
  which single underscores may separate digits. More than \<open>max_str_digits\<close> digits are
  refused with \<open>ValueError\<close> (CPython's default limit for the conversion).
\<close>

definition is_c_space :: "char \<Rightarrow> bool" where
  "is_c_space c = (c \<in> set [CHR 0x09, CHR 0x0A, CHR 0x0B, CHR 0x0C, CHR 0x0D, CHR 0x20])"

definition max_str_digits :: nat where
  "max_str_digits = 4300"

definition digit_val :: "char \<Rightarrow> nat" where
  "digit_val c = (case map_of (zip ''0123456789'' [0 ..< 10]) c of Some d \<Rightarrow> d | None \<Rightarrow> 0)"

fun parse_digits :: "nat \<Rightarrow> bool \<Rightarrow> string \<Rightarrow> nat option" where
  "parse_digits acc after_digit [] = (if after_digit then Some acc else None)"
| "parse_digits acc after_digit (c # cs) =
     (if isdigit c then parse_digits (acc * 10 + digit_val c) True cs
      else if c = CHR ''_'' \<and> after_digit then parse_digits acc False cs
      else None)"

definition int_of_str :: "string \<Rightarrow> int option" where
  "int_of_str s =
     (if max_str_digits < length (filter isdigit s) then None
      else (case rev (dropWhile is_c_space (rev (dropWhile is_c_space s))) of
              [] \<Rightarrow> None
            | c # cs \<Rightarrow>
                if c = CHR ''-'' then map_option (\<lambda>n. - int n) (parse_digits 0 False cs)
                else if c = CHR ''+'' then map_option int (parse_digits 0 False cs)
                else map_option int (parse_digits 0 False (c # cs))))"

text \<open>\<open>int(x)\<close> for a float: the value cut towards zero.\<close>

definition float_trunc :: "int \<Rightarrow> int \<Rightarrow> int" where
  "float_trunc m e =
     (if 0 \<le> e then m * 2 ^ nat e
      else if 0 \<le> m then m div 2 ^ nat (- e)
      else - ((- m) div 2 ^ nat (- e)))"

text \<open>
  \<open>int(v)\<close> as \<open>update_plan\<close> applies it to a task id: \<open>ValueError\<close> for a string that is
  no integer literal and for NaN, \<open>OverflowError\<close> for an infinity, \<open>TypeError\<close> for
  \<open>None\<close>, a list or a dict.
\<close>

fun py_int :: "pyval \<Rightarrow> py_error + int" where
  "py_int (PInt n) = Inr n"
| "py_int (PBool b) = Inr (if b then 1 else 0)"
| "py_int (PFloat (Finite m e)) = Inr (float_trunc m e)"
| "py_int (PFloat (Infinity positive)) = Inl OverflowError"
| "py_int (PFloat NaN) = Inl ValueError"
| "py_int (PStr s) = (case int_of_str s of Some n \<Rightarrow> Inr n | None \<Rightarrow> Inl ValueError)"
| "py_int v = Inl TypeError"

section \<open>Dictionaries, membership, iteration\<close>

text \<open>
  A Python \<open>dict\<close> is an association list in insertion order; \<open>d[k] = v\<close> is
  \<open>AList.update\<close> (in place when the key is there, appended otherwise). Keys are
  compared structurally (Python also takes \<open>True\<close>, \<open>1\<close> and \<open>1.0\<close> for the same key).
\<close>

definition dict_get :: "pydict \<Rightarrow> string \<Rightarrow> pyval \<Rightarrow> pyval" where
  "dict_get d k dflt = (case map_of d k of Some v \<Rightarrow> v | None \<Rightarrow> dflt)"

text \<open>\<open>k in v\<close> for a string \<open>k\<close>.\<close>

fun py_in :: "string \<Rightarrow> pyval \<Rightarrow> py_error + bool" where
  "py_in k (PDict d) = Inr (k \<in> set (map fst d))"
| "py_in k (PList xs) = Inr (PStr k \<in> set xs)"
| "py_in k (PStr s) = Inr (contains_str k s)"
| "py_in k v = Inl TypeError"

text \<open>\<open>v[k]\<close> for a string \<open>k\<close>.\<close>

fun py_getitem :: "pyval \<Rightarrow> string \<Rightarrow> py_error + pyval" where
  "py_getitem (PDict d) k = (case map_of d k of Some v \<Rightarrow> Inr v | None \<Rightarrow> Inl KeyError)"
| "py_getitem v k = Inl TypeError"

text \<open>\<open>for x in v\<close>: the elements of a list, the keys of a dict, the characters of a string.\<close>

fun py_iter :: "pyval \<Rightarrow> py_error + pyval list" where
  "py_iter (PList xs) = Inr xs"
| "py_iter (PDict d) = Inr (map (\<lambda>(k, v). PStr k) d)"
| "py_iter (PStr s) = Inr (map (\<lambda>c. PStr [c]) s)"
| "py_iter v = Inl TypeError"

text \<open>Whether a value can be a dictionary key.\<close>

fun hashable :: "pyval \<Rightarrow> bool" where
  "hashable (PList xs) = False"
| "hashable (PDict d) = False"
| "hashable v = True"

section \<open>The planner's collaborators, log and state\<close>

type_synonym plan = "(pyval \<times> pydict) list"
type_synonym store = "(pyval \<times> string) list"

datatype next_task = Last_step | Next_task_is pyval | No_next_task

text \<open>
  What is pushed to the conversation memory: the instruction text, or the replanning
  directive of \<open>update_plan\<close> with the values its f-string embeds (goal, id, the last
  agent's work, the verdict, the next task).
\<close>

datatype prompt =
    User_text string
  | Update_prompt string pyval string bool next_task

datatype log_level = Info | Warning | Error

text \<open>One constructor per \<open>self.logger\<close> call site, with the values its message embeds.\<close>

datatype log_event =
    Found_tasks_names nat
  | Raw_plan_text string
  | Attempting_block string
  | Json_decode_failed
  | Agent_does_not_exist "pyval option"
  | Parsing_error_block py_error
  | Error_parsing_tasks py_error
  | Parsing_finished nat nat
  | Constructing_from_text
  | Plan_generation_failed
  | Plan_made string
  | Invalid_task_id pyval py_error
  | Plan_updated plan
  | Prompt_for_agent pyval store
  | Agent_started pyval pyval
  | Agent_finished pyval pyval bool
  | Next_agent_needs pyval store

fun level :: "log_event \<Rightarrow> log_level" where
  "level Json_decode_failed = Warning"
| "level (Agent_does_not_exist a) = Warning"
| "level Constructing_from_text = Warning"
| "level (Invalid_task_id i e) = Warning"
| "level (Parsing_error_block e) = Error"
| "level (Error_parsing_tasks e) = Error"
| "level Plan_generation_failed = Error"
| "level ev = Info"

text \<open>
  Code the planner calls and this repository's planner file does not define:
  \<^item> \<open>load_exec_block\<close>: \<open>self.tools["json"].load_exec_block\<close>, the fenced blocks of a text
    (the empty list for \<open>None\<close> or \<open>[]\<close>, both falsy);
  \<^item> \<open>json_loads\<close>, \<open>literal_eval\<close>: the two parsers of a block;
  \<^item> \<open>llm_request\<close>: the model's answer, a function of the prompts pushed so far;
  \<^item> \<open>agent_process\<close>: the executor registered under a capability name, a function of
    the dispatches so far (the last one is the current); it yields the raw answer and
    the success flag;
  \<^item> \<open>stop\<close>: the cooperative stop flag as the loop reads it at iteration \<open>i\<close>.
\<close>

type_synonym dispatch = "string \<times> pyval \<times> store"

record env =
  load_exec_block :: "string \<Rightarrow> py_error + string list"
  json_loads :: "string \<Rightarrow> py_error + pyval"
  literal_eval :: "string \<Rightarrow> pyval option"
  llm_request :: "prompt list \<Rightarrow> py_error + string"
  agent_process :: "string \<Rightarrow> dispatch list \<Rightarrow> py_error + string \<times> bool"
  stop :: "nat \<Rightarrow> bool"

record pstate =
  memory :: "prompt list"
  llm_calls :: nat
  dispatched :: "dispatch list"
  log :: "log_event list"

section \<open>Plan text extractor: \<open>get_task_names\<close>\<close>

definition is_task_name :: "string \<Rightarrow> bool" where
  "is_task_name line = (length line \<noteq> 0 \<and> (contains_str ''##'' line \<or> isdigit (hd line)))"

definition get_task_names :: "string \<Rightarrow> string list \<times> log_event list" where
  "get_task_names text =
     (let lines = split_on CHR 0x0A (strip text);
          tasks_names = filter is_task_name (map strip lines)
      in (tasks_names, [Found_tasks_names (length tasks_names)]))"

section \<open>Plan payload decoder and fallback synthesizer: \<open>parse_agent_tasks\<close>\<close>

definition valid_agents :: "string list" where
  "valid_agents = map lower [''coder'', ''file'', ''web'', ''casual'']"

text \<open>
  Lines 130-138: the capability check of one plan item. \<open>agent_name\<close> is a local
  variable; only \<open>task["agent"] = "Casual"\<close> changes the item. A non-dict item has no
  \<open>get\<close>, a non-string capability has no \<open>lower\<close>: both raise out of the item loop.
\<close>

definition remap_agent :: "pyval \<Rightarrow> py_error + pydict \<times> log_event list" where
  "remap_agent task =
     (case task of
        PDict d \<Rightarrow>
          (case dict_get d ''agent'' (PStr []) of
             PStr a \<Rightarrow>
               (let agent_name = lower a;
                    agent_name = (if agent_name = ''planner'' then ''casual'' else agent_name)
                in if agent_name \<notin> set valid_agents
                   then Inr (AList.update ''agent'' (PStr ''Casual'') d,
                             [Agent_does_not_exist (map_of d ''agent'')])
                   else Inr (d, []))
           | _ \<Rightarrow> Inl AttributeError)
      | _ \<Rightarrow> Inl AttributeError)"

text \<open>
  Lines 139-149: the normalized task built from an item when \<open>n\<close> tasks are already
  collected; \<open>None\<close> when \<open>task["task"]\<close> raises and the item is skipped.
\<close>

definition build_agent :: "nat \<Rightarrow> pydict \<Rightarrow> pydict option" where
  "build_agent n task =
     (case map_of task ''task'' of
        None \<Rightarrow> None
      | Some t \<Rightarrow>
          Some ([(''agent'', dict_get task ''agent'' (PStr ''Casual'')),
                 (''id'', dict_get task ''id'' (PStr (str_nat (n + 1)))),
                 (''task'', t)]
                @ (case map_of task ''need'' of Some nd \<Rightarrow> [(''need'', nd)] | None \<Rightarrow> [])))"

text \<open>
  The loop over \<open>line_json["plan"]\<close>: the tasks collected, the log, and the exception that
  ended the loop early, if any (the tasks appended before it stay).
\<close>

fun decode_tasks :: "pydict list \<Rightarrow> pyval list \<Rightarrow> pydict list \<times> log_event list \<times> py_error option" where
  "decode_tasks tasks [] = (tasks, [], None)"
| "decode_tasks tasks (task # rest) =
     (case remap_agent task of
        Inl e \<Rightarrow> (tasks, [], Some e)
      | Inr (d, ev) \<Rightarrow>
          (let tasks' = (case build_agent (length tasks) d of
                           None \<Rightarrow> tasks
                         | Some agent \<Rightarrow> tasks @ [agent])
           in case decode_tasks tasks' rest of
                (r, ev', err) \<Rightarrow> (r, ev @ ev', err)))"

text \<open>Lines 115-126: strict parse, then the permissive one.\<close>

definition parse_block :: "env \<Rightarrow> string \<Rightarrow> (py_error + pyval) \<times> log_event list" where
  "parse_block env clean_block =
     (case json_loads env clean_block of
        Inr v \<Rightarrow> (Inr v, [])
      | Inl JSONDecodeError \<Rightarrow>
          (case literal_eval env clean_block of
             Some v \<Rightarrow> (Inr v, [Json_decode_failed])
           | None \<Rightarrow> (Inl JSONDecodeError, [Json_decode_failed]))
      | Inl e \<Rightarrow> (Inl e, []))"

text \<open>Lines 128-129: the items of the payload, \<open>None\<close> when there is no \<open>"plan"\<close>.\<close>

definition plan_items :: "pyval \<Rightarrow> py_error + pyval list option" where
  "plan_items line_json =
     (case py_in ''plan'' line_json of
        Inl e \<Rightarrow> Inl e
      | Inr False \<Rightarrow> Inr None
      | Inr True \<Rightarrow>
          (case py_getitem line_json ''plan'' of
             Inl e \<Rightarrow> Inl e
           | Inr p \<Rightarrow> (case py_iter p of Inl e \<Rightarrow> Inl e | Inr items \<Rightarrow> Inr (Some items))))"

text \<open>Lines 107-152: one block; every exception is logged and the block left.\<close>

definition decode_block :: "env \<Rightarrow> pydict list \<Rightarrow> string \<Rightarrow> pydict list \<times> log_event list" where
  "decode_block env tasks block =
     (let clean_block = strip (remove_str ''```'' (remove_str ''```json'' block));
          ev0 = [Attempting_block (take 200 clean_block)]
      in case parse_block env clean_block of
           (Inl e, ev1) \<Rightarrow> (tasks, ev0 @ ev1 @ [Parsing_error_block e])
         | (Inr line_json, ev1) \<Rightarrow>
             (case plan_items line_json of
                Inl e \<Rightarrow> (tasks, ev0 @ ev1 @ [Parsing_error_block e])
              | Inr None \<Rightarrow> (tasks, ev0 @ ev1)
              | Inr (Some items) \<Rightarrow>
                  (case decode_tasks tasks items of
                     (tasks', ev2, None) \<Rightarrow> (tasks', ev0 @ ev1 @ ev2)
                   | (tasks', ev2, Some e) \<Rightarrow> (tasks', ev0 @ ev1 @ ev2 @ [Parsing_error_block e]))))"

fun decode_blocks :: "env \<Rightarrow> pydict list \<Rightarrow> string list \<Rightarrow> pydict list \<times> log_event list" where
  "decode_blocks env tasks [] = (tasks, [])"
| "decode_blocks env tasks (block # rest) =
     (case decode_block env tasks block of
        (tasks', ev) \<Rightarrow>
          (case decode_blocks env tasks' rest of (r, ev') \<Rightarrow> (r, ev @ ev')))"

text \<open>Lines 93-104: the fenced blocks, or the text from its first \<open>{\<close> to its last \<open>}\<close>.\<close>

definition find_blocks :: "env \<Rightarrow> string \<Rightarrow> py_error + string list" where
  "find_blocks env text =
     (case load_exec_block env text of
        Inl e \<Rightarrow> Inl e
      | Inr blocks \<Rightarrow>
          if blocks = [] then
            (let start = py_find CHR ''{'' text;
                 end = py_rfind CHR ''}'' text + 1
             in if start \<noteq> -1 \<and> end \<noteq> -1 then Inr [py_slice text start end] else Inr [])
          else Inr blocks)"

text \<open>Lines 92-155: the decoder stage.\<close>

definition decode :: "env \<Rightarrow> string \<Rightarrow> pydict list \<times> log_event list" where
  "decode env text =
     (case find_blocks env text of
        Inl e \<Rightarrow> ([], [Error_parsing_tasks e])
      | Inr blocks \<Rightarrow> decode_blocks env [] blocks)"

text \<open>Lines 171-178: the capability guessed from a heading line.\<close>

definition agent_type :: "string \<Rightarrow> string" where
  "agent_type task_name =
     (let t_lower = lower task_name
      in if contains_str ''code'' t_lower \<or> contains_str ''script'' t_lower
            \<or> contains_str ''python'' t_lower then ''Coder''
         else if contains_str ''search'' t_lower \<or> contains_str ''web'' t_lower
            \<or> contains_str ''internet'' t_lower then ''Web''
         else if contains_str ''file'' t_lower \<or> contains_str ''folder'' t_lower then ''File''
         else ''Casual'')"

text \<open>Lines 170-187: \<open>for i, task_name in enumerate(tasks_names)\<close>, from index \<open>i\<close> on.\<close>

fun synthesize :: "nat \<Rightarrow> string list \<Rightarrow> pydict list" where
  "synthesize i [] = []"
| "synthesize i (task_name # rest) =
     [(''agent'', PStr (agent_type task_name)),
      (''id'', PStr (str_nat (i + 1))),
      (''task'', PStr task_name),
      (''need'', PList (if i > 0 then [PStr (str_nat i)] else []))]
     # synthesize (i + 1) rest"

text \<open>Lines 194-198: \<open>[t["task"], t]\<close> for every task.\<close>

fun make_result :: "pydict list \<Rightarrow> py_error + plan" where
  "make_result [] = Inr []"
| "make_result (t # ts) =
     (case map_of t ''task'' of
        None \<Rightarrow> Inl KeyError
      | Some name \<Rightarrow> (case make_result ts of Inl e \<Rightarrow> Inl e | Inr r \<Rightarrow> Inr ((name, t) # r)))"

definition parse_agent_tasks :: "env \<Rightarrow> string \<Rightarrow> (py_error + plan) \<times> log_event list" where
  "parse_agent_tasks env text =
     (case get_task_names text of
        (tasks_names, ev0) \<Rightarrow>
          (case decode env text of
             (tasks, ev2) \<Rightarrow>
               (let ev3 = [Parsing_finished (length tasks) (length tasks_names)];
                    fallback = (length tasks = 0 \<and> length tasks_names > 0);
                    tasks' = (if fallback then tasks @ synthesize 0 tasks_names else tasks);
                    ev4 = (if fallback then [Constructing_from_text] else [])
                in (make_result tasks', ev0 @ [Raw_plan_text text] @ ev2 @ ev3 @ ev4))))"

section \<open>Plan negotiator: \<open>make_plan\<close>\<close>

definition max_retries :: nat where
  "max_retries = 3"

definition retry_prompt :: prompt where
  "retry_prompt = User_text (''Failed to parse the tasks. Please write down your task ''
     @ ''followed by a json plan within ```json. Do not ask for clarification.'' @ [CHR 0x0A])"

text \<open>
  How the \<open>while not ok and retries < max_retries\<close> loop is left: by the \<open>return []\<close> of
  line 261, or through its condition with the values of \<open>ok\<close> and \<open>answer\<close>.
\<close>

datatype loop_exit = No_update | Loop_done bool "string option"

function make_plan_loop ::
  "env \<Rightarrow> prompt \<Rightarrow> bool \<Rightarrow> string option \<Rightarrow> nat \<Rightarrow> pstate \<Rightarrow> (py_error + loop_exit) \<times> pstate" where
  "make_plan_loop env prompt ok answer retries st =
     (if \<not> ok \<and> retries < max_retries then
        (let st1 = st\<lparr>memory := memory st @ [prompt], llm_calls := llm_calls st + 1\<rparr>
         in case llm_request env (memory st1) of
              Inl e \<Rightarrow> (Inl e, st1)
            | Inr a \<Rightarrow>
                if contains_str ''NO_UPDATE'' a then (Inr No_update, st1)
                else (case parse_agent_tasks env a of
                        (Inl e, ev) \<Rightarrow> (Inl e, st1\<lparr>log := log st1 @ ev\<rparr>)
                      | (Inr agents_tasks, ev) \<Rightarrow>
                          if agents_tasks = []
                          then make_plan_loop env retry_prompt ok (Some a) (retries + 1)
                                 (st1\<lparr>log := log st1 @ ev\<rparr>)
                          else make_plan_loop env prompt True (Some a) (retries + 1)
                                 (st1\<lparr>log := log st1 @ ev\<rparr>)))
      else (Inr (Loop_done ok answer), st))"
  by pat_completeness auto
termination
  by (relation "measure (\<lambda>(env, prompt, ok, answer, retries, st). max_retries - retries)") auto

declare make_plan_loop.simps [simp del]

text \<open>
  Lines 274-285. The loop sets \<open>ok\<close> only after it has bound \<open>answer\<close>, so the branch for an
  unbound answer is never taken; there \<open>parse_agent_tasks(None)\<close> would raise.
\<close>

definition make_plan :: "env \<Rightarrow> prompt \<Rightarrow> pstate \<Rightarrow> (py_error + plan) \<times> pstate" where
  "make_plan env prompt st =
     (case make_plan_loop env prompt False None 0 st of
        (Inl e, st') \<Rightarrow> (Inl e, st')
      | (Inr No_update, st') \<Rightarrow> (Inr [], st')
      | (Inr (Loop_done ok answer), st') \<Rightarrow>
          if \<not> ok then (Inr [], st'\<lparr>log := log st' @ [Plan_generation_failed]\<rparr>)
          else (case answer of
                  None \<Rightarrow> (Inl AttributeError, st')
                | Some a \<Rightarrow>
                    (case parse_agent_tasks env a of
                       (r, ev) \<Rightarrow> (r, st'\<lparr>log := log st' @ [Plan_made a] @ ev\<rparr>))))"

text \<open>
  The same negotiation when the collaborators need not answer twice alike: \<open>world st\<close> is
  the collaborators as they behave when the planner is in state \<open>st\<close>, and every call
  consults the world of the state it is made in. The first \<open>parse_agent_tasks\<close> of an
  answer runs inside the loop, the second one on return, after \<open>Plan made\<close> is logged.
  With a world that never changes this is \<open>make_plan\<close>.
\<close>

function make_plan_loop_w ::
  "(pstate \<Rightarrow> env) \<Rightarrow> prompt \<Rightarrow> bool \<Rightarrow> string option \<Rightarrow> nat \<Rightarrow> pstate
     \<Rightarrow> (py_error + loop_exit) \<times> pstate" where
  "make_plan_loop_w world prompt ok answer retries st =
     (if \<not> ok \<and> retries < max_retries then
        (let st1 = st\<lparr>memory := memory st @ [prompt], llm_calls := llm_calls st + 1\<rparr>
         in case llm_request (world st1) (memory st1) of
              Inl e \<Rightarrow> (Inl e, st1)
            | Inr a \<Rightarrow>
                if contains_str ''NO_UPDATE'' a then (Inr No_update, st1)
                else (case parse_agent_tasks (world st1) a of
                        (Inl e, ev) \<Rightarrow> (Inl e, st1\<lparr>log := log st1 @ ev\<rparr>)
                      | (Inr agents_tasks, ev) \<Rightarrow>
                          if agents_tasks = []
                          then make_plan_loop_w world retry_prompt ok (Some a) (retries + 1)
                                 (st1\<lparr>log := log st1 @ ev\<rparr>)
                          else make_plan_loop_w world prompt True (Some a) (retries + 1)
                                 (st1\<lparr>log := log st1 @ ev\<rparr>)))
      else (Inr (Loop_done ok answer), st))"
  by pat_completeness auto
termination
  by (relation "measure (\<lambda>(world, prompt, ok, answer, retries, st). max_retries - retries)") auto

declare make_plan_loop_w.simps [simp del]

definition make_plan_w :: "(pstate \<Rightarrow> env) \<Rightarrow> prompt \<Rightarrow> pstate \<Rightarrow> (py_error + plan) \<times> pstate" where
  "make_plan_w world prompt st =
     (case make_plan_loop_w world prompt False None 0 st of
        (Inl e, st') \<Rightarrow> (Inl e, st')
      | (Inr No_update, st') \<Rightarrow> (Inr [], st')
      | (Inr (Loop_done ok answer), st') \<Rightarrow>
          if \<not> ok then (Inr [], st'\<lparr>log := log st' @ [Plan_generation_failed]\<rparr>)
          else (case answer of
                  None \<Rightarrow> (Inl AttributeError, st')
                | Some a \<Rightarrow>
                    (let st2 = st'\<lparr>log := log st' @ [Plan_made a]\<rparr>
                     in case parse_agent_tasks (world st2) a of
                          (r, ev) \<Rightarrow> (r, st2\<lparr>log := log st2 @ ev\<rparr>))))"

section \<open>Replanner: \<open>update_plan\<close>\<close>

text \<open>
  \<open>agents_work_result[id]\<close> is read before the \<open>try\<close> around \<open>int(id)\<close>. The
  \<open>except (ValueError, TypeError)\<close> of line 313 catches these two; any other exception of
  \<open>int\<close> leaves \<open>update_plan\<close>.
\<close>

definition next_task_of :: "plan \<Rightarrow> int \<Rightarrow> next_task" where
  "next_task_of agents_tasks id_int =
     (if id_int = int (length agents_tasks) then Last_step
      else (case py_index agents_tasks id_int of
              Inr t \<Rightarrow> Next_task_is (fst t)
            | Inl e \<Rightarrow> No_next_task))"

definition update_plan ::
  "env \<Rightarrow> string \<Rightarrow> plan \<Rightarrow> store \<Rightarrow> pyval \<Rightarrow> bool \<Rightarrow> pstate \<Rightarrow> (py_error + plan) \<times> pstate" where
  "update_plan env goal agents_tasks agents_work_result ident success st =
     (if \<not> hashable ident then (Inl TypeError, st)
      else (case map_of agents_work_result ident of
              None \<Rightarrow> (Inl KeyError, st)
            | Some last_agent_work \<Rightarrow>
                (case py_int ident of
                   Inl e \<Rightarrow>
                     if e = ValueError \<or> e = TypeError
                     then (Inr agents_tasks, st\<lparr>log := log st @ [Invalid_task_id ident e]\<rparr>)
                     else (Inl e, st)
                 | Inr id_int \<Rightarrow>
                     (case make_plan env
                             (Update_prompt goal ident last_agent_work success
                                (next_task_of agents_tasks id_int)) st of
                        (Inl e, st') \<Rightarrow> (Inl e, st')
                      | (Inr plan, st') \<Rightarrow>
                          if plan = [] then (Inr agents_tasks, st')
                          else (Inr plan, st'\<lparr>log := log st' @ [Plan_updated plan]\<rparr>)))))"

section \<open>Task dispatcher: \<open>get_work_result_agent\<close> and \<open>start_agent_process\<close>\<close>

text \<open>
  The comprehension \<open>{k: agents_work_result[k] for k in task_needs if k in agents_work_result}\<close>:
  \<open>res\<close> is the dict built so far.
\<close>

fun collect_needs :: "store \<Rightarrow> store \<Rightarrow> pyval list \<Rightarrow> py_error + store" where
  "collect_needs agents_work_result res [] = Inr res"
| "collect_needs agents_work_result res (k # ks) =
     (if \<not> hashable k then Inl TypeError
      else (case map_of agents_work_result k of
              Some v \<Rightarrow> collect_needs agents_work_result (AList.update k v res) ks
            | None \<Rightarrow> collect_needs agents_work_result res ks))"

definition get_work_result_agent :: "pyval \<Rightarrow> store \<Rightarrow> (py_error + store) \<times> log_event list" where
  "get_work_result_agent task_needs agents_work_result =
     (case py_iter task_needs of
        Inl e \<Rightarrow> (Inl e, [])
      | Inr ks \<Rightarrow>
          (case collect_needs agents_work_result [] ks of
             Inl e \<Rightarrow> (Inl e, [])
           | Inr res \<Rightarrow> (Inr res, [Next_agent_needs task_needs res])))"

definition agents_keys :: "string list" where
  "agents_keys = [''coder'', ''file'', ''web'', ''casual'']"

definition success_marker :: "bool \<Rightarrow> string" where
  "success_marker success =
     (if success then CHR 0x0A # ''Agent succeeded with task.''
      else CHR 0x0A # ''Agent failed with task (Error detected).'')"

definition start_agent_process ::
  "env \<Rightarrow> pydict \<Rightarrow> store \<Rightarrow> pstate \<Rightarrow> (py_error + string \<times> bool) \<times> pstate" where
  "start_agent_process env task required_infos st =
     (case map_of task ''task'' of
        None \<Rightarrow> (Inl KeyError, st)
      | Some t \<Rightarrow>
          (let st1 = st\<lparr>log := log st @ [Prompt_for_agent t required_infos]\<rparr>
           in case map_of task ''agent'' of
                None \<Rightarrow> (Inl KeyError, st1)
              | Some a \<Rightarrow>
                  (let st2 = st1\<lparr>log := log st1 @ [Agent_started a t]\<rparr>
                   in case a of
                        PStr s \<Rightarrow>
                          if lower s \<notin> set agents_keys then (Inl KeyError, st2)
                          else
                            (let st3 = st2\<lparr>dispatched :=
                                             dispatched st2 @ [(lower s, t, required_infos)]\<rparr>
                             in case agent_process env (lower s) (dispatched st3) of
                                  Inl e \<Rightarrow> (Inl e, st3)
                                | Inr (answer, success) \<Rightarrow>
                                    (Inr (answer @ success_marker success, success),
                                     st3\<lparr>log := log st3 @ [Agent_finished a t success]\<rparr>))
                      | _ \<Rightarrow> (Inl AttributeError, st2))))"

section \<open>Orchestration loop: \<open>process\<close>\<close>

datatype 'a outcome = Returns 'a | Raises py_error | Out_of_fuel

text \<open>
  \<open>speech_module\<close>: \<open>None\<close>, or what \<open>speak\<close> raises for a task name and a capability.
\<close>

type_synonym speech = "(pyval \<Rightarrow> pyval \<Rightarrow> py_error option) option"

text \<open>
  Lines 410-433, one iteration on \<open>agents_tasks[i]\<close>: the new plan and the answer, or the
  exception, with the result store as the iteration leaves it. \<open>agents_work_result\<close> is never \<open>None\<close>, so \<open>task["need"]\<close> is always read.
\<close>

definition process_step ::
  "env \<Rightarrow> string \<Rightarrow> speech \<Rightarrow> plan \<Rightarrow> store \<Rightarrow> nat \<Rightarrow> pstate
     \<Rightarrow> (py_error + plan \<times> string) \<times> store \<times> pstate" where
  "process_step env goal speech_module agents_tasks agents_work_result i st =
     (case agents_tasks ! i of
        (task_name, task) \<Rightarrow>
          (case task_name of
             PStr name \<Rightarrow>
               (case map_of task ''agent'' of
                  None \<Rightarrow> (Inl KeyError, agents_work_result, st)
                | Some a \<Rightarrow>
                    (case (case speech_module of None \<Rightarrow> None | Some speak \<Rightarrow> speak task_name a) of
                       Some e \<Rightarrow> (Inl e, agents_work_result, st)
                     | None \<Rightarrow>
                         (case map_of task ''need'' of
                            None \<Rightarrow> (Inl KeyError, agents_work_result, st)
                          | Some need \<Rightarrow>
                              (case get_work_result_agent need agents_work_result of
                                 (Inl e, ev) \<Rightarrow> (Inl e, agents_work_result, st\<lparr>log := log st @ ev\<rparr>)
                               | (Inr required_infos, ev) \<Rightarrow>
                                   (case start_agent_process env task required_infos
                                           (st\<lparr>log := log st @ ev\<rparr>) of
                                      (Inl e, st1) \<Rightarrow> (Inl e, agents_work_result, st1)
                                    | (Inr (answer, success), st1) \<Rightarrow>
                                        (case map_of task ''id'' of
                                           None \<Rightarrow> (Inl KeyError, agents_work_result, st1)
                                         | Some ident \<Rightarrow>
                                             if \<not> hashable ident
                                             then (Inl TypeError, agents_work_result, st1)
                                             else
                                               (let results = AList.update ident answer agents_work_result
                                                in case update_plan env goal agents_tasks results
                                                          ident success st1 of
                                                     (Inl e, st2) \<Rightarrow> (Inl e, results, st2)
                                                   | (Inr plan, st2) \<Rightarrow>
                                                       (Inr (plan, answer), results, st2))))))))
           | _ \<Rightarrow> (Inl AttributeError, agents_work_result, st)))"

text \<open>
  The \<open>while i < steps and not self.stop\<close> loop; \<open>steps\<close> is \<open>len(agents_tasks)\<close> whenever
  the condition is read. A replan may lengthen the plan at every iteration, so the loop
  runs on fuel. Beside the outcome, the final result store and state are returned.
\<close>

fun process_loop ::
  "nat \<Rightarrow> env \<Rightarrow> string \<Rightarrow> speech \<Rightarrow> plan \<Rightarrow> store \<Rightarrow> nat \<Rightarrow> string option \<Rightarrow> pstate
     \<Rightarrow> (string \<times> string) outcome \<times> store \<times> pstate" where
  "process_loop fuel env goal speech_module agents_tasks agents_work_result i answer st =
     (if i < length agents_tasks \<and> \<not> stop env i then
        (case fuel of
           0 \<Rightarrow> (Out_of_fuel, agents_work_result, st)
         | Suc fuel' \<Rightarrow>
             (case process_step env goal speech_module agents_tasks agents_work_result i st of
                (Inl e, results, st') \<Rightarrow> (Raises e, results, st')
              | (Inr (plan, a), results, st') \<Rightarrow>
                  process_loop fuel' env goal speech_module plan results (i + 1) (Some a) st'))
      else (case answer of
              None \<Rightarrow> (Raises UnboundLocalError, agents_work_result, st)
            | Some a \<Rightarrow> (Returns (a, []), agents_work_result, st)))"

declare process_loop.simps [simp del]

definition process ::
  "nat \<Rightarrow> env \<Rightarrow> string \<Rightarrow> speech \<Rightarrow> pstate \<Rightarrow> (string \<times> string) outcome \<times> store \<times> pstate" where
  "process fuel env goal speech_module st =
     (case make_plan env (User_text goal) st of
        (Inl e, st') \<Rightarrow> (Raises e, [], st')
      | (Inr agents_tasks, st') \<Rightarrow>
          if agents_tasks = [] then (Returns (''Failed to parse the tasks.'', []), [], st')
          else process_loop fuel env goal speech_module agents_tasks [] 0 None st')"

section \<open>Notions used by the statements\<close>

text \<open>
  The capability of a task as the dispatcher reads it: \<open>task["agent"].lower()\<close>, the key
  into \<open>self.agents\<close>.
\<close>

definition capability :: "pydict \<Rightarrow> string" where
  "capability task = (case map_of task ''agent'' of Some (PStr a) \<Rightarrow> lower a | _ \<Rightarrow> [])"

text \<open>
  The specification's reading of the fallback classification: default \<open>casual\<close>;
  "code"/"script" give \<open>coder\<close>; "search"/"web"/"internet" give \<open>web\<close>; "file"/"folder"
  give \<open>file\<close>; matching is case-insensitive, the first rule that applies wins.
\<close>

definition spec_capability :: "string \<Rightarrow> string" where
  "spec_capability heading =
     (let h = lower heading
      in if contains_str ''code'' h \<or> contains_str ''script'' h then ''coder''
         else if contains_str ''search'' h \<or> contains_str ''web'' h
            \<or> contains_str ''internet'' h then ''web''
         else if contains_str ''file'' h \<or> contains_str ''folder'' h then ''file''
         else ''casual'')"

text \<open>
  A task object of the payload: a JSON object whose \<open>"agent"\<close>, when given, is a string.
  \<open>item_dict\<close> is its dictionary, \<open>agent_name_of\<close> the capability it asks for (\<open>""\<close> when it
  names none), \<open>kept\<close> the items that have the required \<open>"task"\<close> field.
\<close>

definition item_dict :: "pyval \<Rightarrow> pydict" where
  "item_dict v = (case v of PDict d \<Rightarrow> d | _ \<Rightarrow> [])"

definition agent_name_of :: "pydict \<Rightarrow> string" where
  "agent_name_of d = (case dict_get d ''agent'' (PStr []) of PStr a \<Rightarrow> a | _ \<Rightarrow> [])"

definition task_object :: "pyval \<Rightarrow> bool" where
  "task_object v =
     (case v of
        PDict d \<Rightarrow> (case dict_get d ''agent'' (PStr []) of PStr a \<Rightarrow> True | _ \<Rightarrow> False)
      | _ \<Rightarrow> False)"

definition has_task :: "pyval \<Rightarrow> bool" where
  "has_task v = (map_of (item_dict v) ''task'' \<noteq> None)"

definition kept :: "pyval list \<Rightarrow> pyval list" where
  "kept items = filter has_task items"

definition clean :: "string \<Rightarrow> string" where
  "clean block = strip (remove_str ''```'' (remove_str ''```json'' block))"

text \<open>
  The task the decoder builds from a kept item with dictionary \<open>d\<close> when it is the
  \<open>k\<close>-th kept one (counting from 0), and the tasks it builds from a list of kept items
  when \<open>n\<close> tasks were collected before.
\<close>

definition normalized :: "nat \<Rightarrow> pydict \<Rightarrow> pydict" where
  "normalized k d =
     [(''agent'', if lower (agent_name_of d) = ''planner'' \<or> lower (agent_name_of d) \<in> set valid_agents
                  then PStr (agent_name_of d) else PStr ''Casual''),
      (''id'', dict_get d ''id'' (PStr (str_nat (k + 1)))),
      (''task'', dict_get d ''task'' PNone)]
     @ (case map_of d ''need'' of Some nd \<Rightarrow> [(''need'', nd)] | None \<Rightarrow> [])"

fun normalized_from :: "nat \<Rightarrow> pyval list \<Rightarrow> pydict list" where
  "normalized_from n [] = []"
| "normalized_from n (item # items) = normalized n (item_dict item) # normalized_from (n + 1) items"

text \<open>
  A negotiation attempt that fails: with the prompts \<open>m\<close> in memory the model answers, and
  its answer neither holds the terminal marker nor parses to a non-empty plan.
\<close>

definition failing_attempt :: "env \<Rightarrow> prompt list \<Rightarrow> bool" where
  "failing_attempt env m =
     (case llm_request env m of
        Inl e \<Rightarrow> False
      | Inr a \<Rightarrow> \<not> contains_str ''NO_UPDATE'' a \<and> fst (parse_agent_tasks env a) = Inr [])"

text \<open>
  Environments for concrete runs. In \<open>idle_env\<close> no text has a fenced block, no block
  parses, the model answers \<open>answer\<close> whatever it is asked and every executor succeeds with
  \<open>done\<close>. In \<open>payload_env\<close> every text is one fenced block and parses to \<open>payload\<close>.
\<close>

definition idle_env :: "string \<Rightarrow> env" where
  "idle_env answer =
     \<lparr>load_exec_block = (\<lambda>text. Inr []),
      json_loads = (\<lambda>block. Inl JSONDecodeError),
      literal_eval = (\<lambda>block. None),
      llm_request = (\<lambda>m. Inr answer),
      agent_process = (\<lambda>key ds. Inr (''done'', True)),
      stop = (\<lambda>i. False)\<rparr>"

definition payload_env :: "pyval \<Rightarrow> env" where
  "payload_env payload =
     \<lparr>load_exec_block = (\<lambda>text. Inr [text]),
      json_loads = (\<lambda>block. Inr payload),
      literal_eval = (\<lambda>block. None),
      llm_request = (\<lambda>m. Inr ''plan''),
      agent_process = (\<lambda>key ds. Inr (''done'', True)),
      stop = (\<lambda>i. False)\<rparr>"

definition init_state :: pstate where
  "init_state = \<lparr>memory = [], llm_calls = 0, dispatched = [], log = []\<rparr>"

text \<open>
  Two environments have the same parsers when the block finder and the two parsers of
  the one answer as those of the other; a world is steady when its parsers are the same
  in every state. In \<open>fickle_world\<close> they are not: a text is a payload block as long as
  nothing is logged, and no text has a block afterwards.
\<close>

definition same_parsers :: "env \<Rightarrow> env \<Rightarrow> bool" where
  "same_parsers e1 e2 =
     (load_exec_block e1 = load_exec_block e2
      \<and> json_loads e1 = json_loads e2
      \<and> literal_eval e1 = literal_eval e2)"

definition steady :: "(pstate \<Rightarrow> env) \<Rightarrow> bool" where
  "steady world = (\<forall>s1 s2. same_parsers (world s1) (world s2))"

definition fickle_world :: "pstate \<Rightarrow> env" where
  "fickle_world st =
     (if log st = []
      then payload_env (PDict [(''plan'', PList [PDict [(''agent'', PStr ''coder''),
             (''id'', PStr ''1''), (''task'', PStr ''write''), (''need'', PList [])]])])
      else idle_env ''plan'')"

section \<open>The dependency context\<close>

lemma collect_needs_restrict:
  "\<forall>k \<in> set ks. hashable k \<Longrightarrow>
   \<exists>r. collect_needs agents_work_result res ks = Inr r \<and>
       map_of r = map_of res ++ (map_of agents_work_result |` set ks)"
proof (induction ks arbitrary: res)
  case Nil
  then show ?case by simp
next
  case (Cons k ks)
  then have hk: "hashable k" and hks: "\<forall>k \<in> set ks. hashable k" by simp_all
  show ?case
  proof (cases "map_of agents_work_result k")
    case None
    from Cons.IH[OF hks, of res] obtain r where
      r: "collect_needs agents_work_result res ks = Inr r"
         "map_of r = map_of res ++ (map_of agents_work_result |` set ks)"
      by blast
    have "map_of agents_work_result |` set (k # ks) = map_of agents_work_result |` set ks"
      using None by (auto simp: restrict_map_def fun_eq_iff)
    with r hk None show ?thesis by simp
  next
    case (Some v)
    from Cons.IH[OF hks, of "AList.update k v res"] obtain r where
      r: "collect_needs agents_work_result (AList.update k v res) ks = Inr r"
         "map_of r = map_of (AList.update k v res) ++ (map_of agents_work_result |` set ks)"
      by blast
    have "map_of (AList.update k v res) ++ (map_of agents_work_result |` set ks)
          = map_of res ++ (map_of agents_work_result |` set (k # ks))"
      using Some
      by (auto simp: restrict_map_def fun_eq_iff update_conv' map_add_def split: option.splits)
    with r hk Some show ?thesis by simp
  qed
qed

text \<open>
  C6. For every dependency list of task ids and every result store,
  \<open>get_work_result_agent\<close> returns (it raises nothing) a dictionary that is exactly the
  result store restricted to the ids of the list: an id the store holds comes with its
  stored output, an id the store lacks is left out.
\<close>

theorem dependency_context_is_restriction:
  "\<exists>res. get_work_result_agent (PList (map PStr ids)) agents_work_result
           = (Inr res, [Next_agent_needs (PList (map PStr ids)) res])
         \<and> map_of res = map_of agents_work_result |` (PStr ` set ids)"
proof -
  have "\<forall>k \<in> set (map PStr ids). hashable k" by auto
  from collect_needs_restrict[OF this, of agents_work_result "[]"] obtain r where
    "collect_needs agents_work_result [] (map PStr ids) = Inr r"
    "map_of r = map_of [] ++ (map_of agents_work_result |` set (map PStr ids))"
    by blast
  then show ?thesis by (simp add: get_work_result_agent_def)
qed

section \<open>The replanner on a malformed id\<close>

lemma py_int_errors:
  "py_int v = Inl e \<Longrightarrow>
   e = ValueError \<or> e = TypeError \<or> v = PFloat (Infinity True) \<or> v = PFloat (Infinity False)"
proof (cases v)
  case (PFloat f)
  assume "py_int v = Inl e"
  with PFloat show ?thesis by (cases f) auto
qed (auto split: option.splits)

text \<open>
  C2, as the code has it. When the result store holds an entry for the completed task's
  id (the orchestration loop stores it just before it calls the replanner), the id is
  not parseable as an integer and is not an infinite float, \<open>update_plan\<close> returns the
  current plan unchanged, logs one warning, calls the model not at all and raises
  nothing.
\<close>

theorem update_plan_malformed_id:
  assumes "map_of agents_work_result ident = Some work"
      and "hashable ident"
      and "py_int ident = Inl e"
      and "ident \<noteq> PFloat (Infinity True)"
      and "ident \<noteq> PFloat (Infinity False)"
  shows "update_plan env goal agents_tasks agents_work_result ident success st
           = (Inr agents_tasks, st\<lparr>log := log st @ [Invalid_task_id ident e]\<rparr>)
         \<and> level (Invalid_task_id ident e) = Warning"
proof -
  from py_int_errors[OF assms(3)] assms(4,5) have "e = ValueError \<or> e = TypeError" by blast
  with assms(1,2,3) show ?thesis by (auto simp: update_plan_def)
qed

theorem update_plan_malformed_id_witness:
  "map_of [(PStr ''abc'', ''out'')] (PStr ''abc'') = Some ''out''
   \<and> hashable (PStr ''abc'')
   \<and> py_int (PStr ''abc'') = Inl ValueError
   \<and> PStr ''abc'' \<noteq> PFloat (Infinity True)
   \<and> PStr ''abc'' \<noteq> PFloat (Infinity False)
   \<and> update_plan (idle_env ''x'') ''goal'' [(PStr ''t'', [])] [(PStr ''abc'', ''out'')]
         (PStr ''abc'') True init_state
       = (Inr [(PStr ''t'', [])],
          init_state\<lparr>log := log init_state @ [Invalid_task_id (PStr ''abc'') ValueError]\<rparr>)
   \<and> level (Invalid_task_id (PStr ''abc'') ValueError) = Warning"
proof -
  have a: "map_of [(PStr ''abc'', ''out'')] (PStr ''abc'') = Some ''out''" by simp
  have b: "hashable (PStr ''abc'')" by simp
  have c: "py_int (PStr ''abc'') = Inl ValueError" by code_simp
  have d: "PStr ''abc'' \<noteq> PFloat (Infinity True)" "PStr ''abc'' \<noteq> PFloat (Infinity False)"
    by simp_all
  from update_plan_malformed_id[OF a b c d] a b c d show ?thesis by blast
qed

text \<open>
  The claim as stated, for every result store, fails: with the id \<open>"abc"\<close> and a store
  that has no entry for it, \<open>agents_work_result[id]\<close> raises \<open>KeyError\<close> before \<open>int(id)\<close>
  is tried.
\<close>

theorem update_plan_unknown_id_raises:
  "fst (update_plan (idle_env ''x'') ''goal'' [(PStr ''t'', [])] [] (PStr ''abc'') True init_state)
     = Inl KeyError"
  by (simp add: update_plan_def)

text \<open>
  An infinite float as id (the payload's \<open>"id": 1e999\<close>, carried verbatim by the decoder and
  stored by the loop): \<open>int\<close> raises \<open>OverflowError\<close>, which line 313 does not name, and the
  exception leaves \<open>update_plan\<close>. Non-ASCII white space apart, a string is converted as
  CPython does: \<open>"\x1f2"\<close> is no integer, \<open>" 2 "\<close> is.
\<close>

lemma update_plan_infinite_id_raises:
  "map_of agents_work_result (PFloat (Infinity positive)) = Some work \<Longrightarrow>
   update_plan env goal agents_tasks agents_work_result (PFloat (Infinity positive)) success st
     = (Inl OverflowError, st)"
  by (simp add: update_plan_def)

lemma int_of_str_examples:
  "py_int (PStr [CHR 0x1F, CHR ''2'']) = Inl ValueError"
  "py_int (PStr '' 2 '') = Inr 2"
  "py_int (PStr ''-1_0'') = Inr (- 10)"
  "py_int (PFloat (Finite (- 5) (- 1))) = Inr (- 2)"
  "py_int (PFloat NaN) = Inl ValueError"
  by code_simp+

section \<open>\<open>parse_agent_tasks\<close> always returns\<close>

lemma build_agent_has_task: "build_agent n d = Some a \<Longrightarrow> map_of a ''task'' \<noteq> None"
  by (auto simp: build_agent_def split: option.splits)

lemma decode_tasks_has_task:
  "\<forall>t \<in> set tasks. map_of t ''task'' \<noteq> None \<Longrightarrow>
   \<forall>t \<in> set (fst (decode_tasks tasks items)). map_of t ''task'' \<noteq> None"
proof (induction items arbitrary: tasks)
  case Nil
  then show ?case by simp
next
  case (Cons item items)
  show ?case
  proof (cases "remap_agent item")
    case (Inl e)
    with Cons.prems show ?thesis by simp
  next
    case (Inr p)
    obtain d ev where p: "p = (d, ev)" by (cases p)
    define tasks' where "tasks' = (case build_agent (length tasks) d of
                           None \<Rightarrow> tasks | Some agent \<Rightarrow> tasks @ [agent])"
    have "\<forall>t \<in> set tasks'. map_of t ''task'' \<noteq> None"
      using Cons.prems build_agent_has_task[of "length tasks" d]
      by (auto simp: tasks'_def split: option.splits)
    from Cons.IH[OF this] show ?thesis
      using Inr p by (simp add: tasks'_def split: prod.splits)
  qed
qed

lemma decode_block_cases:
  "fst (decode_block env tasks block) = tasks
   \<or> (\<exists>items. fst (decode_block env tasks block) = fst (decode_tasks tasks items))"
proof -
  obtain parsed ev1 where p: "parse_block env (strip (remove_str ''```'' (remove_str ''```json'' block))) = (parsed, ev1)"
    by (cases "parse_block env (strip (remove_str ''```'' (remove_str ''```json'' block)))")
  show ?thesis
  proof (cases parsed)
    case (Inl e)
    with p show ?thesis by (simp add: decode_block_def)
  next
    case (Inr line_json)
    show ?thesis
    proof (cases "plan_items line_json")
      case (Inl e)
      with p Inr show ?thesis by (simp add: decode_block_def)
    next
      case items: (Inr opt)
      show ?thesis
      proof (cases opt)
        case None
        with p Inr items show ?thesis by (simp add: decode_block_def)
      next
        case (Some its)
        obtain t' ev2 err where d: "decode_tasks tasks its = (t', ev2, err)"
          by (cases "decode_tasks tasks its")
        have "fst (decode_block env tasks block) = t'"
          using p Inr items Some d by (cases err) (simp_all add: decode_block_def)
        with d show ?thesis by (metis fst_conv)
      qed
    qed
  qed
qed

lemma decode_block_has_task:
  "\<forall>t \<in> set tasks. map_of t ''task'' \<noteq> None \<Longrightarrow>
   \<forall>t \<in> set (fst (decode_block env tasks block)). map_of t ''task'' \<noteq> None"
  using decode_tasks_has_task[of tasks] decode_block_cases[of env tasks block]
  by metis

lemma decode_blocks_has_task:
  "\<forall>t \<in> set tasks. map_of t ''task'' \<noteq> None \<Longrightarrow>
   \<forall>t \<in> set (fst (decode_blocks env tasks blocks)). map_of t ''task'' \<noteq> None"
proof (induction blocks arbitrary: tasks)
  case Nil
  then show ?case by simp
next
  case (Cons b bs)
  from decode_block_has_task[OF Cons.prems, of env b]
  have "\<forall>t \<in> set (fst (decode_block env tasks b)). map_of t ''task'' \<noteq> None" .
  from Cons.IH[OF this] show ?case by (simp split: prod.splits)
qed

lemma decode_has_task: "\<forall>t \<in> set (fst (decode env text)). map_of t ''task'' \<noteq> None"
  using decode_blocks_has_task[of "[]" env]
  by (auto simp: decode_def split: sum.splits)

lemma synthesize_has_task: "\<forall>t \<in> set (synthesize i names). map_of t ''task'' \<noteq> None"
  by (induction names arbitrary: i) auto

lemma make_result_ok:
  "\<forall>t \<in> set ts. map_of t ''task'' \<noteq> None \<Longrightarrow>
   \<exists>r. make_result ts = Inr r \<and> map snd r = ts"
  by (induction ts) auto

lemma parse_agent_tasks_returns:
  "\<exists>r. fst (parse_agent_tasks env text) = Inr r"
proof -
  obtain names ev0 where n: "get_task_names text = (names, ev0)" by (cases "get_task_names text")
  obtain tasks ev2 where d: "decode env text = (tasks, ev2)" by (cases "decode env text")
  have t: "\<forall>t \<in> set tasks. map_of t ''task'' \<noteq> None"
    using decode_has_task[of env "text"] d by simp
  define tasks' where "tasks' = (if length tasks = 0 \<and> length names > 0
                                 then tasks @ synthesize 0 names else tasks)"
  have "\<forall>t \<in> set tasks'. map_of t ''task'' \<noteq> None"
    using t synthesize_has_task[of 0 names] by (auto simp: tasks'_def)
  from make_result_ok[OF this] obtain r where "make_result tasks' = Inr r" by blast
  then show ?thesis
    using n d by (simp add: parse_agent_tasks_def Let_def tasks'_def)
qed

section \<open>The negotiation loop\<close>

lemma make_plan_loop_exit:
  "ok \<or> \<not> retries < max_retries \<Longrightarrow>
   make_plan_loop env prompt ok answer retries st = (Inr (Loop_done ok answer), st)"
  by (subst make_plan_loop.simps) auto

lemma make_plan_loop_step:
  "\<not> ok \<Longrightarrow> retries < max_retries \<Longrightarrow>
   make_plan_loop env prompt ok answer retries st =
     (let st1 = st\<lparr>memory := memory st @ [prompt], llm_calls := llm_calls st + 1\<rparr>
      in case llm_request env (memory st1) of
           Inl e \<Rightarrow> (Inl e, st1)
         | Inr a \<Rightarrow>
             if contains_str ''NO_UPDATE'' a then (Inr No_update, st1)
             else (case parse_agent_tasks env a of
                     (Inl e, ev) \<Rightarrow> (Inl e, st1\<lparr>log := log st1 @ ev\<rparr>)
                   | (Inr agents_tasks, ev) \<Rightarrow>
                       if agents_tasks = []
                       then make_plan_loop env retry_prompt ok (Some a) (retries + 1)
                              (st1\<lparr>log := log st1 @ ev\<rparr>)
                       else make_plan_loop env prompt True (Some a) (retries + 1)
                              (st1\<lparr>log := log st1 @ ev\<rparr>)))"
  by (subst make_plan_loop.simps) simp

lemma make_plan_loop_calls:
  "(retries \<le> max_retries \<longrightarrow>
      llm_calls (snd (make_plan_loop env prompt ok answer retries st)) + retries
        \<le> llm_calls st + max_retries)
   \<and> dispatched (snd (make_plan_loop env prompt ok answer retries st)) = dispatched st"
proof (induction env prompt ok answer retries st rule: make_plan_loop.induct)
  case (1 env prompt ok answer retries st)
  show ?case
  proof (cases "\<not> ok \<and> retries < max_retries")
    case False
    then have "make_plan_loop env prompt ok answer retries st = (Inr (Loop_done ok answer), st)"
      by (intro make_plan_loop_exit) auto
    then show ?thesis by simp
  next
    case True
    then have nok: "\<not> ok" and lt: "retries < max_retries" by simp_all
    define st1 where "st1 = st\<lparr>memory := memory st @ [prompt], llm_calls := llm_calls st + 1\<rparr>"
    show ?thesis
    proof (cases "llm_request env (memory st1)")
      case (Inl e)
      with nok lt show ?thesis by (simp add: make_plan_loop_step st1_def)
    next
      case (Inr a)
      show ?thesis
      proof (cases "contains_str ''NO_UPDATE'' a")
        case m: True
        with nok lt Inr show ?thesis
          by (simp add: make_plan_loop_step st1_def)
      next
        case nm: False
        obtain r ev where p: "parse_agent_tasks env a = (r, ev)"
          by (cases "parse_agent_tasks env a")
        show ?thesis
        proof (cases r)
          case (Inl e)
          with nok lt Inr nm p show ?thesis by (simp add: make_plan_loop_step st1_def)
        next
          case pr: (Inr agents_tasks)
          show ?thesis
          proof (cases "agents_tasks = []")
            case e: True
            from "1.IH"(1)[OF True st1_def Inr nm p[symmetric] pr e]
            show ?thesis using nok lt Inr nm p pr e
              by (simp add: make_plan_loop_step st1_def)
          next
            case e: False
            from "1.IH"(2)[OF True st1_def Inr nm p[symmetric] pr e]
            show ?thesis using nok lt Inr nm p pr e
              by (simp add: make_plan_loop_step st1_def)
          qed
        qed
      qed
    qed
  qed
qed

lemma failing_step:
  assumes "retries < max_retries" and "failing_attempt env (memory st @ [prompt])"
  shows "\<exists>a st'. make_plan_loop env prompt False answer retries st
            = make_plan_loop env retry_prompt False (Some a) (retries + 1) st'
         \<and> memory st' = memory st @ [prompt]
         \<and> llm_calls st' = llm_calls st + 1"
proof -
  from assms(2) obtain a where
    a: "llm_request env (memory st @ [prompt]) = Inr a"
       "\<not> contains_str ''NO_UPDATE'' a" "fst (parse_agent_tasks env a) = Inr []"
    by (auto simp: failing_attempt_def split: sum.splits)
  obtain ev where p: "parse_agent_tasks env a = (Inr [], ev)"
    using a(3) by (cases "parse_agent_tasks env a") simp
  have "make_plan_loop env prompt False answer retries st
          = make_plan_loop env retry_prompt False (Some a) (retries + 1)
              (st\<lparr>memory := memory st @ [prompt], llm_calls := llm_calls st + 1,
                  log := log st @ ev\<rparr>)"
    using assms(1) a(1,2) p
    by (simp add: make_plan_loop_step[of False retries] Let_def)
  then show ?thesis
    by (intro exI[of _ a] exI[of _ "st\<lparr>memory := memory st @ [prompt],
          llm_calls := llm_calls st + 1, log := log st @ ev\<rparr>"]) simp
qed

text \<open>
  C3. \<open>make_plan\<close> is a total function (its loop terminates by the measure
  \<open>max_retries - retries\<close>) and never calls the model more than 3 times. When each of the
  three attempts gets an answer that neither holds the terminal marker nor decodes nor
  synthesizes to a non-empty plan, it makes exactly 3 calls and returns the empty plan,
  not an error.
\<close>

theorem make_plan_exhaustion:
  "llm_calls (snd (make_plan env prompt st)) \<le> llm_calls st + 3
   \<and> (failing_attempt env (memory st @ [prompt])
      \<and> failing_attempt env (memory st @ [prompt, retry_prompt])
      \<and> failing_attempt env (memory st @ [prompt, retry_prompt, retry_prompt])
      \<longrightarrow> fst (make_plan env prompt st) = Inr []
        \<and> llm_calls (snd (make_plan env prompt st)) = llm_calls st + 3)"
proof (intro conjI impI)
  obtain r st' where l: "make_plan_loop env prompt False None 0 st = (r, st')"
    by (cases "make_plan_loop env prompt False None 0 st")
  from make_plan_loop_calls[where env = env and prompt = prompt and ok = False and answer = None and retries = 0 and st = st] l
  have b: "llm_calls st' \<le> llm_calls st + 3" by (simp add: max_retries_def)
  have "llm_calls (snd (make_plan env prompt st)) = llm_calls st'"
    using l by (auto simp: make_plan_def split: sum.splits loop_exit.splits option.splits prod.splits)
  with b show "llm_calls (snd (make_plan env prompt st)) \<le> llm_calls st + 3" by simp
next
  assume f: "failing_attempt env (memory st @ [prompt])
      \<and> failing_attempt env (memory st @ [prompt, retry_prompt])
      \<and> failing_attempt env (memory st @ [prompt, retry_prompt, retry_prompt])"
  have r0: "0 < max_retries" and r1: "0 + 1 < max_retries" and r2: "0 + 1 + 1 < max_retries"
    by (simp_all add: max_retries_def)
  from f have f1: "failing_attempt env (memory st @ [prompt])" by simp
  from failing_step[OF r0 f1, of None] obtain a1 st1 where
    s1: "make_plan_loop env prompt False None 0 st
           = make_plan_loop env retry_prompt False (Some a1) (0 + 1) st1"
        "memory st1 = memory st @ [prompt]" "llm_calls st1 = llm_calls st + 1"
    by blast
  from f s1(2) have f2: "failing_attempt env (memory st1 @ [retry_prompt])" by simp
  from failing_step[OF r1 f2, of "Some a1"] obtain a2 st2 where
    s2: "make_plan_loop env retry_prompt False (Some a1) (0 + 1) st1
           = make_plan_loop env retry_prompt False (Some a2) (0 + 1 + 1) st2"
        "memory st2 = memory st1 @ [retry_prompt]" "llm_calls st2 = llm_calls st1 + 1"
    by blast
  from f s1(2) s2(2) have f3: "failing_attempt env (memory st2 @ [retry_prompt])" by simp
  from failing_step[OF r2 f3, of "Some a2"] obtain a3 st3 where
    s3: "make_plan_loop env retry_prompt False (Some a2) (0 + 1 + 1) st2
           = make_plan_loop env retry_prompt False (Some a3) (0 + 1 + 1 + 1) st3"
        "memory st3 = memory st2 @ [retry_prompt]" "llm_calls st3 = llm_calls st2 + 1"
    by blast
  have "make_plan_loop env retry_prompt False (Some a3) (0 + 1 + 1 + 1) st3
          = (Inr (Loop_done False (Some a3)), st3)"
    by (rule make_plan_loop_exit) (simp add: max_retries_def)
  with s1(1) s2(1) s3(1)
  have l: "make_plan_loop env prompt False None 0 st = (Inr (Loop_done False (Some a3)), st3)"
    by simp
  show "fst (make_plan env prompt st) = Inr []"
    using l by (simp add: make_plan_def)
  show "llm_calls (snd (make_plan env prompt st)) = llm_calls st + 3"
    using l s1(3) s2(3) s3(3) by (simp add: make_plan_def)
qed

theorem make_plan_exhaustion_witness:
  "failing_attempt (idle_env ''hello'') (memory init_state @ [User_text ''goal''])
   \<and> failing_attempt (idle_env ''hello'') (memory init_state @ [User_text ''goal'', retry_prompt])
   \<and> failing_attempt (idle_env ''hello'')
        (memory init_state @ [User_text ''goal'', retry_prompt, retry_prompt])
   \<and> fst (make_plan (idle_env ''hello'') (User_text ''goal'') init_state) = Inr []
   \<and> llm_calls (snd (make_plan (idle_env ''hello'') (User_text ''goal'') init_state))
       = llm_calls init_state + 3"
proof -
  have f: "failing_attempt (idle_env ''hello'') m" for m
    by code_simp
  from make_plan_exhaustion[of "idle_env ''hello''" "User_text ''goal''" init_state] f
  show ?thesis by blast
qed

text \<open>
  C5. At any attempt of the negotiation, if the model's answer contains \<open>NO_UPDATE\<close>, the
  loop is left at once: one more prompt in memory, one more model call, and nothing
  else changed (the log gets no decoder or fallback entry), whatever the answer would
  decode to. \<open>make_plan\<close> then returns the empty plan in that very state.
\<close>

theorem terminal_marker_short_circuit:
  "(retries < max_retries
      \<and> llm_request env (memory st @ [prompt]) = Inr a
      \<and> contains_str ''NO_UPDATE'' a
    \<longrightarrow> make_plan_loop env prompt False answer retries st
          = (Inr No_update, st\<lparr>memory := memory st @ [prompt], llm_calls := llm_calls st + 1\<rparr>))
   \<and> (make_plan_loop env prompt False None 0 st = (Inr No_update, st')
    \<longrightarrow> make_plan env prompt st = (Inr [], st'))"
  by (simp add: make_plan_loop_step make_plan_def)

theorem terminal_marker_short_circuit_witness:
  "0 < max_retries
   \<and> llm_request (idle_env ''1. NO_UPDATE'') (memory init_state @ [User_text ''goal'']) = Inr ''1. NO_UPDATE''
   \<and> contains_str ''NO_UPDATE'' ''1. NO_UPDATE''
   \<and> make_plan_loop (idle_env ''1. NO_UPDATE'') (User_text ''goal'') False None 0 init_state
       = (Inr No_update,
          init_state\<lparr>memory := memory init_state @ [User_text ''goal''],
                      llm_calls := llm_calls init_state + 1\<rparr>)
   \<and> make_plan (idle_env ''1. NO_UPDATE'') (User_text ''goal'') init_state
       = (Inr [],
          init_state\<lparr>memory := memory init_state @ [User_text ''goal''],
                      llm_calls := llm_calls init_state + 1\<rparr>)
   \<and> fst (parse_agent_tasks (idle_env ''1. NO_UPDATE'') ''1. NO_UPDATE'') \<noteq> Inr []"
proof -
  have a: "0 < max_retries" by (simp add: max_retries_def)
  have b: "llm_request (idle_env ''1. NO_UPDATE'') (memory init_state @ [User_text ''goal''])
             = Inr ''1. NO_UPDATE''"
    by (simp add: idle_env_def)
  have c: "contains_str ''NO_UPDATE'' ''1. NO_UPDATE''" by simp
  have d: "fst (parse_agent_tasks (idle_env ''1. NO_UPDATE'') ''1. NO_UPDATE'') \<noteq> Inr []"
    by code_simp
  note t = terminal_marker_short_circuit[of 0 "idle_env ''1. NO_UPDATE''" init_state
      "User_text ''goal''" "''1. NO_UPDATE''" None]
  from t a b c have l: "make_plan_loop (idle_env ''1. NO_UPDATE'') (User_text ''goal'') False None 0 init_state
       = (Inr No_update,
          init_state\<lparr>memory := memory init_state @ [User_text ''goal''],
                      llm_calls := llm_calls init_state + 1\<rparr>)"
    by blast
  with t have "make_plan (idle_env ''1. NO_UPDATE'') (User_text ''goal'') init_state
       = (Inr [],
          init_state\<lparr>memory := memory init_state @ [User_text ''goal''],
                      llm_calls := llm_calls init_state + 1\<rparr>)"
    by blast
  with a b c d l show ?thesis by blast
qed







lemma make_plan_loop_w_exit:
  "ok \<or> \<not> retries < max_retries \<Longrightarrow>
   make_plan_loop_w world prompt ok answer retries st = (Inr (Loop_done ok answer), st)"
  by (subst make_plan_loop_w.simps) auto

lemma make_plan_loop_w_step:
  "\<not> ok \<Longrightarrow> retries < max_retries \<Longrightarrow>
   make_plan_loop_w world prompt ok answer retries st =
     (let st1 = st\<lparr>memory := memory st @ [prompt], llm_calls := llm_calls st + 1\<rparr>
      in case llm_request (world st1) (memory st1) of
           Inl e \<Rightarrow> (Inl e, st1)
         | Inr a \<Rightarrow>
             if contains_str ''NO_UPDATE'' a then (Inr No_update, st1)
             else (case parse_agent_tasks (world st1) a of
                     (Inl e, ev) \<Rightarrow> (Inl e, st1\<lparr>log := log st1 @ ev\<rparr>)
                   | (Inr agents_tasks, ev) \<Rightarrow>
                       if agents_tasks = []
                       then make_plan_loop_w world retry_prompt ok (Some a) (retries + 1)
                              (st1\<lparr>log := log st1 @ ev\<rparr>)
                       else make_plan_loop_w world prompt True (Some a) (retries + 1)
                              (st1\<lparr>log := log st1 @ ev\<rparr>)))"
  by (subst make_plan_loop_w.simps) simp


text \<open>In a world that never changes the negotiation is \<open>make_plan\<close>.\<close>

lemma make_plan_loop_w_constant:
  "make_plan_loop_w (\<lambda>s. env) prompt ok answer retries st
     = make_plan_loop env prompt ok answer retries st"
proof (induction env prompt ok answer retries st rule: make_plan_loop.induct)
  case (1 env prompt ok answer retries st)
  show ?case
  proof (cases "\<not> ok \<and> retries < max_retries")
    case False
    then have "make_plan_loop_w (\<lambda>s. env) prompt ok answer retries st = (Inr (Loop_done ok answer), st)"
      "make_plan_loop env prompt ok answer retries st = (Inr (Loop_done ok answer), st)"
      by (auto intro!: make_plan_loop_w_exit make_plan_loop_exit)
    then show ?thesis by simp
  next
    case True
    then have nok: "\<not> ok" and lt: "retries < max_retries" by simp_all
    define st1 where "st1 = st\<lparr>memory := memory st @ [prompt], llm_calls := llm_calls st + 1\<rparr>"
    show ?thesis
    proof (cases "llm_request env (memory st1)")
      case (Inl e)
      with nok lt show ?thesis
        by (simp add: make_plan_loop_w_step make_plan_loop_step st1_def)
    next
      case (Inr a)
      show ?thesis
      proof (cases "contains_str ''NO_UPDATE'' a")
        case m: True
        with nok lt Inr show ?thesis
          by (simp add: make_plan_loop_w_step make_plan_loop_step st1_def)
      next
        case nm: False
        obtain r ev where p: "parse_agent_tasks env a = (r, ev)"
          by (cases "parse_agent_tasks env a")
        show ?thesis
        proof (cases r)
          case (Inl e)
          with nok lt Inr nm p show ?thesis
            by (simp add: make_plan_loop_w_step make_plan_loop_step st1_def)
        next
          case pr: (Inr agents_tasks)
          show ?thesis
          proof (cases "agents_tasks = []")
            case e: True
            from "1.IH"(1)[OF True st1_def Inr nm p[symmetric] pr e]
            show ?thesis using nok lt Inr nm p pr e
              by (simp add: make_plan_loop_w_step make_plan_loop_step st1_def)
          next
            case e: False
            from "1.IH"(2)[OF True st1_def Inr nm p[symmetric] pr e]
            show ?thesis using nok lt Inr nm p pr e
              by (simp add: make_plan_loop_w_step make_plan_loop_step st1_def)
          qed
        qed
      qed
    qed
  qed
qed

lemma make_plan_w_constant: "make_plan_w (\<lambda>s. env) prompt st = make_plan env prompt st"
  by (simp add: make_plan_w_def make_plan_def make_plan_loop_w_constant Let_def
           split: prod.splits sum.splits loop_exit.splits option.splits)



text \<open>
  Without that condition the conclusion is lost: in \<open>fickle_world\<close> the attempt succeeds on
  the answer \<open>plan\<close> and the second parse of the same answer finds nothing.
\<close>

lemma fickle_world_returns_empty:
  "fst (make_plan_loop_w fickle_world (User_text ''goal'') False None 0 init_state)
     = Inr (Loop_done True (Some ''plan''))
   \<and> fst (make_plan_w fickle_world (User_text ''goal'') init_state) = Inr []
   \<and> \<not> steady fickle_world"
proof -
  have a: "fst (make_plan_loop_w fickle_world (User_text ''goal'') False None 0 init_state)
     = Inr (Loop_done True (Some ''plan''))" by code_simp
  have b: "fst (make_plan_w fickle_world (User_text ''goal'') init_state) = Inr []" by code_simp
  have d: "load_exec_block (fickle_world init_state) ''x''
          \<noteq> load_exec_block (fickle_world (init_state\<lparr>log := [Plan_made ''x'']\<rparr>)) ''x''"
    by (simp add: fickle_world_def init_state_def payload_env_def idle_env_def)
  have c: "\<not> steady fickle_world"
  proof
    assume "steady fickle_world"
    then have "same_parsers (fickle_world init_state)
                 (fickle_world (init_state\<lparr>log := [Plan_made ''x'']\<rparr>))"
      by (simp add: steady_def)
    then have "load_exec_block (fickle_world init_state) ''x''
          = load_exec_block (fickle_world (init_state\<lparr>log := [Plan_made ''x'']\<rparr>)) ''x''"
      by (simp add: same_parsers_def)
    with d show False by simp
  qed
  from a b c show ?thesis by blast
qed

lemma make_plan_dispatched: "dispatched (snd (make_plan env prompt st)) = dispatched st"
proof -
  obtain r st' where l: "make_plan_loop env prompt False None 0 st = (r, st')"
    by (cases "make_plan_loop env prompt False None 0 st")
  from make_plan_loop_calls[where env = env and prompt = prompt and ok = False and answer = None and retries = 0 and st = st] l
  have "dispatched st' = dispatched st" by simp
  then show ?thesis
    using l by (auto simp: make_plan_def split: sum.splits loop_exit.splits option.splits prod.splits)
qed

text \<open>
  C7. When the negotiation for the goal returns the empty plan, \<open>process\<close> returns
  \<open>"Failed to parse the tasks."\<close> at once, for any fuel: the result store is empty and no
  task was dispatched.
\<close>

theorem empty_plan_ends_run:
  assumes "fst (make_plan env (User_text goal) st) = Inr []"
  shows "process fuel env goal speech_module st
           = (Returns (''Failed to parse the tasks.'', []), [], snd (make_plan env (User_text goal) st))
         \<and> dispatched (snd (make_plan env (User_text goal) st)) = dispatched st"
  using assms make_plan_dispatched[of env "User_text goal" st]
  by (cases "make_plan env (User_text goal) st") (simp add: process_def)

theorem empty_plan_ends_run_witness:
  "fst (make_plan (idle_env ''hello'') (User_text ''goal'') init_state) = Inr []
   \<and> process 5 (idle_env ''hello'') ''goal'' None init_state
       = (Returns (''Failed to parse the tasks.'', []), [],
          snd (make_plan (idle_env ''hello'') (User_text ''goal'') init_state))
   \<and> dispatched (snd (make_plan (idle_env ''hello'') (User_text ''goal'') init_state))
       = dispatched init_state"
proof -
  have h: "fst (make_plan (idle_env ''hello'') (User_text ''goal'') init_state) = Inr []"
    by code_simp
  from empty_plan_ends_run[OF h] h show ?thesis by blast
qed

section \<open>Fallback synthesis\<close>

lemma synthesize_length: "length (synthesize k names) = length names"
  by (induction names arbitrary: k) auto

lemma synthesize_nth:
  "i < length names \<Longrightarrow>
   synthesize k names ! i =
     [(''agent'', PStr (agent_type (names ! i))),
      (''id'', PStr (str_nat (k + i + 1))),
      (''task'', PStr (names ! i)),
      (''need'', PList (if 0 < k + i then [PStr (str_nat (k + i))] else []))]"
proof (induction names arbitrary: k i)
  case Nil
  then show ?case by simp
next
  case (Cons n names)
  show ?case
  proof (cases i)
    case 0
    then show ?thesis by simp
  next
    case (Suc j)
    with Cons.prems have "j < length names" by simp
    from Cons.IH[OF this, of "k + 1"] Suc show ?thesis by simp
  qed
qed

lemma make_result_synthesize:
  "make_result (synthesize k names) = Inr (zip (map PStr names) (synthesize k names))"
  by (induction names arbitrary: k) auto

lemma agent_type_capability:
  "lower (agent_type name) =
     (if contains_str ''python'' (lower name) then ''coder'' else spec_capability name)"
proof -
  have l: "lower ''Coder'' = ''coder''" "lower ''Web'' = ''web''"
          "lower ''File'' = ''file''" "lower ''Casual'' = ''casual''"
    by (simp_all add: lower_def lower_char_def)
  show ?thesis
    by (simp add: agent_type_def spec_capability_def Let_def l del: contains_str.simps)
qed

text \<open>
  C4, as the code has it. When decoding yields no task and the extractor finds
  \<open>n \<ge> 1\<close> heading lines, \<open>parse_agent_tasks\<close> returns exactly \<open>n\<close> tasks, one per heading
  line in order. Task \<open>i\<close> (counted from 1) has the line as description and id \<open>str(i)\<close>;
  the first task has no dependency and every later one depends on \<open>[str(i - 1)]\<close> only.
  Its capability, read case-insensitively, is \<open>coder\<close> when the line contains "python",
  and otherwise what the specification's rules give: "code"/"script" \<open>coder\<close>, else
  "search"/"web"/"internet" \<open>web\<close>, else "file"/"folder" \<open>file\<close>, else \<open>casual\<close>.
\<close>

theorem fallback_synthesis:
  assumes "fst (decode env text) = []"
      and "fst (get_task_names text) = names"
      and "names \<noteq> []"
  shows "\<exists>plan. fst (parse_agent_tasks env text) = Inr plan
           \<and> length plan = length names
           \<and> (\<forall>i < length names.
                 plan ! i =
                   (PStr (names ! i),
                    [(''agent'', PStr (agent_type (names ! i))),
                     (''id'', PStr (str_nat (i + 1))),
                     (''task'', PStr (names ! i)),
                     (''need'', PList (if 0 < i then [PStr (str_nat i)] else []))])
                 \<and> lower (agent_type (names ! i)) =
                     (if contains_str ''python'' (lower (names ! i)) then ''coder''
                      else spec_capability (names ! i)))"
proof -
  obtain ev0 where n: "get_task_names text = (names, ev0)"
    using assms(2) by (cases "get_task_names text") simp
  obtain ev2 where d: "decode env text = ([], ev2)"
    using assms(1) by (cases "decode env text") simp
  have p: "fst (parse_agent_tasks env text) = Inr (zip (map PStr names) (synthesize 0 names))"
    using n d assms(3) by (simp add: parse_agent_tasks_def Let_def make_result_synthesize)
  have "\<forall>i < length names.
          zip (map PStr names) (synthesize 0 names) ! i =
            (PStr (names ! i),
             [(''agent'', PStr (agent_type (names ! i))),
              (''id'', PStr (str_nat (i + 1))),
              (''task'', PStr (names ! i)),
              (''need'', PList (if 0 < i then [PStr (str_nat i)] else []))])"
    using synthesize_nth[of _ names 0] by (simp add: synthesize_length)
  with p show ?thesis
    by (simp add: synthesize_length agent_type_capability del: contains_str.simps)
qed

theorem fallback_synthesis_witness:
  "fst (decode (idle_env []) ''1. Search the web for X\<newline>2. Summarize results'') = []
   \<and> fst (get_task_names ''1. Search the web for X\<newline>2. Summarize results'')
       = [''1. Search the web for X'', ''2. Summarize results'']
   \<and> [''1. Search the web for X'', ''2. Summarize results''] \<noteq> []
   \<and> fst (parse_agent_tasks (idle_env []) ''1. Search the web for X\<newline>2. Summarize results'')
       = Inr [(PStr ''1. Search the web for X'',
               [(''agent'', PStr ''Web''), (''id'', PStr ''1''),
                (''task'', PStr ''1. Search the web for X''), (''need'', PList [])]),
              (PStr ''2. Summarize results'',
               [(''agent'', PStr ''Casual''), (''id'', PStr ''2''),
                (''task'', PStr ''2. Summarize results''), (''need'', PList [PStr ''1''])])]"
proof -
  let ?t = "''1. Search the web for X\<newline>2. Summarize results''"
  let ?n = "[''1. Search the web for X'', ''2. Summarize results'']"
  have a: "fst (decode (idle_env []) ?t) = []" by code_simp
  have b: "fst (get_task_names ?t) = ?n" by code_simp
  have c: "?n \<noteq> []" by simp
  from fallback_synthesis[OF a b c] obtain plan where
    p: "fst (parse_agent_tasks (idle_env []) ?t) = Inr plan" "length plan = length ?n"
       "\<forall>i < length ?n. plan ! i =
                   (PStr (?n ! i),
                    [(''agent'', PStr (agent_type (?n ! i))),
                     (''id'', PStr (str_nat (i + 1))),
                     (''task'', PStr (?n ! i)),
                     (''need'', PList (if 0 < i then [PStr (str_nat i)] else []))])"
    by blast
  have e: "fst (parse_agent_tasks (idle_env []) ?t)
       = Inr [(PStr ''1. Search the web for X'',
               [(''agent'', PStr ''Web''), (''id'', PStr ''1''),
                (''task'', PStr ''1. Search the web for X''), (''need'', PList [])]),
              (PStr ''2. Summarize results'',
               [(''agent'', PStr ''Casual''), (''id'', PStr ''2''),
                (''task'', PStr ''2. Summarize results''), (''need'', PList [PStr ''1''])])]"
    by code_simp
  from a b c e p show ?thesis by blast
qed

text \<open>
  The claim as stated fails on a heading that contains "python" and none of the listed
  words: the specification's rules give \<open>casual\<close>, the code assigns \<open>Coder\<close>.
\<close>

theorem fallback_python_heading:
  "fst (parse_agent_tasks (idle_env []) ''1. Learn python'')
     = Inr [(PStr ''1. Learn python'',
             [(''agent'', PStr ''Coder''), (''id'', PStr ''1''),
              (''task'', PStr ''1. Learn python''), (''need'', PList [])])]
   \<and> spec_capability ''1. Learn python'' = ''casual''"
  by code_simp

section \<open>The capability of a decoded task\<close>

text \<open>
  C1, at a failing input. For the payload
  \<open>{"plan": [{"agent": "planner", "id": "1", "task": "plan more", "need": []}]}\<close> the
  returned task still carries the capability \<open>planner\<close>, which is no key of
  \<open>self.agents\<close>: line 133 rewrites the local \<open>agent_name\<close> only, so the test of line 134
  passes and \<open>task["agent"]\<close> is left as it was.
\<close>

theorem planner_capability_kept:
  "fst (parse_agent_tasks
          (payload_env (PDict [(''plan'', PList [PDict [(''agent'', PStr ''planner''),
             (''id'', PStr ''1''), (''task'', PStr ''plan more''), (''need'', PList [])]])]))
          ''x'')
     = Inr [(PStr ''plan more'',
             [(''agent'', PStr ''planner''), (''id'', PStr ''1''),
              (''task'', PStr ''plan more''), (''need'', PList [])])]
   \<and> capability [(''agent'', PStr ''planner''), (''id'', PStr ''1''),
              (''task'', PStr ''plan more''), (''need'', PList [])] \<notin> set valid_agents"
  by code_simp

section \<open>Decoding a well-formed payload\<close>

lemma empty_name_not_valid: "[] \<notin> set valid_agents" "lower [] \<noteq> ''planner''"
  by (simp_all add: valid_agents_def lower_def)

lemma casual_valid: "''casual'' \<in> set valid_agents"
  by (simp add: valid_agents_def lower_def lower_char_def)

lemma remap_agent_object:
  assumes "task_object item"
  shows "\<exists>ev. remap_agent item =
           Inr (if lower (agent_name_of (item_dict item)) = ''planner''
                   \<or> lower (agent_name_of (item_dict item)) \<in> set valid_agents
                then item_dict item
                else AList.update ''agent'' (PStr ''Casual'') (item_dict item), ev)"
proof -
  from assms obtain d where d: "item = PDict d" by (cases item) (auto simp: task_object_def)
  with assms obtain a where a: "dict_get d ''agent'' (PStr []) = PStr a"
    by (cases "dict_get d ''agent'' (PStr [])") (auto simp: task_object_def)
  show ?thesis
    using d a casual_valid by (simp add: remap_agent_def item_dict_def agent_name_of_def Let_def)
qed

lemma build_agent_remapped:
  assumes "task_object item" and "d = item_dict item"
  shows "build_agent n (if lower (agent_name_of d) = ''planner''
                           \<or> lower (agent_name_of d) \<in> set valid_agents
                        then d else AList.update ''agent'' (PStr ''Casual'') d)
           = (if map_of d ''task'' = None then None else Some (normalized n d))"
proof (cases "lower (agent_name_of d) = ''planner'' \<or> lower (agent_name_of d) \<in> set valid_agents")
  case True
  from assms obtain a where a: "dict_get d ''agent'' (PStr []) = PStr a"
    by (cases item; cases "dict_get d ''agent'' (PStr [])") (auto simp: task_object_def item_dict_def)
  have "map_of d ''agent'' \<noteq> None"
  proof
    assume "map_of d ''agent'' = None"
    then have "agent_name_of d = []" by (simp add: agent_name_of_def dict_get_def)
    with True empty_name_not_valid show False by (simp add: lower_def)
  qed
  then have "dict_get d ''agent'' (PStr ''Casual'') = PStr (agent_name_of d)"
    using a by (auto simp: dict_get_def agent_name_of_def)
  with True show ?thesis
    by (auto simp: build_agent_def normalized_def dict_get_def split: option.splits)
next
  case False
  then show ?thesis
    by (auto simp: build_agent_def normalized_def dict_get_def update_conv' split: option.splits)
qed

lemma decode_tasks_objects:
  "\<forall>t \<in> set items. task_object t \<Longrightarrow>
   \<exists>evs. decode_tasks tasks items
           = (tasks @ normalized_from (length tasks) (kept items), evs, None)"
proof (induction items arbitrary: tasks)
  case Nil
  then show ?case by (simp add: kept_def)
next
  case (Cons item items)
  then have obj: "task_object item" and rest: "\<forall>t \<in> set items. task_object t" by simp_all
  define d where "d = item_dict item"
  define d' where "d' = (if lower (agent_name_of d) = ''planner''
                           \<or> lower (agent_name_of d) \<in> set valid_agents
                        then d else AList.update ''agent'' (PStr ''Casual'') d)"
  from remap_agent_object[OF obj] obtain ev where r: "remap_agent item = Inr (d', ev)"
    unfolding d'_def d_def by blast
  have b: "build_agent (length tasks) d'
             = (if map_of d ''task'' = None then None else Some (normalized (length tasks) d))"
    unfolding d'_def using build_agent_remapped[OF obj d_def] .
  show ?case
  proof (cases "map_of d ''task'' = None")
    case True
    then have k: "kept (item # items) = kept items" by (simp add: kept_def has_task_def d_def)
    from Cons.IH[OF rest, of tasks] obtain evs where
      "decode_tasks tasks items = (tasks @ normalized_from (length tasks) (kept items), evs, None)"
      by blast
    with r b True k show ?thesis by (simp add: d_def[symmetric])
  next
    case False
    then have k: "kept (item # items) = item # kept items"
      by (simp add: kept_def has_task_def d_def)
    from Cons.IH[OF rest, of "tasks @ [normalized (length tasks) d]"] obtain evs where
      "decode_tasks (tasks @ [normalized (length tasks) d]) items
         = ((tasks @ [normalized (length tasks) d])
              @ normalized_from (length (tasks @ [normalized (length tasks) d])) (kept items),
            evs, None)"
      by blast
    with r b False k show ?thesis by (simp add: d_def[symmetric])
  qed
qed

lemma normalized_from_length: "length (normalized_from n xs) = length xs"
  by (induction xs arbitrary: n) auto

lemma normalized_from_Nil: "(normalized_from n xs = []) = (xs = [])"
  by (cases xs) simp_all

lemma normalized_from_nth:
  "k < length xs \<Longrightarrow> normalized_from n xs ! k = normalized (n + k) (item_dict (xs ! k))"
proof (induction xs arbitrary: n k)
  case Nil
  then show ?case by simp
next
  case (Cons x xs)
  show ?case
  proof (cases k)
    case 0
    then show ?thesis by simp
  next
    case (Suc j)
    with Cons.prems have "j < length xs" by simp
    from Cons.IH[OF this, of "n + 1"] Suc show ?thesis by simp
  qed
qed

lemma make_result_normalized:
  "make_result (normalized_from n xs)
     = Inr (zip (map (\<lambda>v. dict_get (item_dict v) ''task'' PNone) xs) (normalized_from n xs))"
  by (induction xs arbitrary: n) (auto simp: normalized_def)

lemma plan_items_payload:
  "map_of payload ''plan'' = Some (PList items) \<Longrightarrow> plan_items (PDict payload) = Inr (Some items)"
proof -
  assume m: "map_of payload ''plan'' = Some (PList items)"
  then have "(''plan'', PList items) \<in> set payload" by (rule map_of_SomeD)
  then have "''plan'' \<in> fst ` set payload" by force
  with m show ?thesis by (simp add: plan_items_def)
qed

text \<open>
  C8. Let the text have one payload block that parses to an object whose \<open>"plan"\<close> is a
  list of task objects. Then the decoder returns exactly one task per item that has a
  \<open>"task"\<close> field, in the order of the payload, the \<open>k\<close>-th of them normalized with the
  running count \<open>k + 1\<close> as default id; an item without \<open>"task"\<close> is skipped and the others
  are kept. So with \<open>N\<close> items that all have the field, exactly \<open>N\<close> tasks are decoded, and
  \<open>parse_agent_tasks\<close> returns them paired with their descriptions.
\<close>

theorem decode_well_formed:
  assumes "find_blocks env text = Inr [block]"
      and "fst (parse_block env (clean block)) = Inr (PDict payload)"
      and "map_of payload ''plan'' = Some (PList items)"
      and "\<forall>t \<in> set items. task_object t"
  shows "length (fst (decode env text)) = length (kept items)
         \<and> (\<forall>k < length (kept items).
               fst (decode env text) ! k = normalized k (item_dict (kept items ! k)))
         \<and> ((\<forall>t \<in> set items. has_task t) \<longrightarrow> length (fst (decode env text)) = length items)
         \<and> (kept items \<noteq> [] \<longrightarrow>
               fst (parse_agent_tasks env text)
                 = Inr (zip (map (\<lambda>v. dict_get (item_dict v) ''task'' PNone) (kept items))
                            (fst (decode env text))))"
proof -
  obtain ev1 where p: "parse_block env (strip (remove_str ''```'' (remove_str ''```json'' block)))
                         = (Inr (PDict payload), ev1)"
    using assms(2)
    by (cases "parse_block env (strip (remove_str ''```'' (remove_str ''```json'' block)))")
       (simp add: clean_def)
  from decode_tasks_objects[OF assms(4), of "[]"] obtain evs where
    t: "decode_tasks [] items = (normalized_from 0 (kept items), evs, None)" by auto
  have b: "fst (decode_block env [] block) = normalized_from 0 (kept items)"
    using p plan_items_payload[OF assms(3)] t by (simp add: decode_block_def)
  have d: "fst (decode env text) = normalized_from 0 (kept items)"
    using assms(1) b by (simp add: decode_def split: prod.splits)
  have all: "(\<forall>t \<in> set items. has_task t) \<longrightarrow> kept items = items"
    by (simp add: kept_def)
  obtain names ev0 where n: "get_task_names text = (names, ev0)"
    by (cases "get_task_names text")
  obtain ev2 where dd: "decode env text = (normalized_from 0 (kept items), ev2)"
    using d by (cases "decode env text") simp
  have pa: "kept items \<noteq> [] \<longrightarrow>
               fst (parse_agent_tasks env text)
                 = Inr (zip (map (\<lambda>v. dict_get (item_dict v) ''task'' PNone) (kept items))
                            (normalized_from 0 (kept items)))"
    using n dd
    by (simp add: parse_agent_tasks_def Let_def make_result_normalized normalized_from_Nil)
  show ?thesis
    using d all pa normalized_from_nth[of _ "kept items" 0]
    by (auto simp: normalized_from_length)
qed

theorem decode_well_formed_witness:
  "find_blocks (payload_env (PDict [(''plan'', PList
       [PDict [(''agent'', PStr ''Coder''), (''task'', PStr ''write script''), (''need'', PList [])],
        PDict [(''agent'', PStr ''web'')],
        PDict [(''agent'', PStr ''dancer''), (''id'', PStr ''7''), (''task'', PStr ''dance'')]])])) ''x''
     = Inr [''x'']
   \<and> fst (parse_block (payload_env (PDict [(''plan'', PList
       [PDict [(''agent'', PStr ''Coder''), (''task'', PStr ''write script''), (''need'', PList [])],
        PDict [(''agent'', PStr ''web'')],
        PDict [(''agent'', PStr ''dancer''), (''id'', PStr ''7''), (''task'', PStr ''dance'')]])]))
         (clean ''x''))
     = Inr (PDict [(''plan'', PList
       [PDict [(''agent'', PStr ''Coder''), (''task'', PStr ''write script''), (''need'', PList [])],
        PDict [(''agent'', PStr ''web'')],
        PDict [(''agent'', PStr ''dancer''), (''id'', PStr ''7''), (''task'', PStr ''dance'')]])])
   \<and> task_object (PDict [(''agent'', PStr ''Coder''), (''task'', PStr ''write script''), (''need'', PList [])])
   \<and> task_object (PDict [(''agent'', PStr ''web'')])
   \<and> task_object (PDict [(''agent'', PStr ''dancer''), (''id'', PStr ''7''), (''task'', PStr ''dance'')])
   \<and> length (fst (decode (payload_env (PDict [(''plan'', PList
       [PDict [(''agent'', PStr ''Coder''), (''task'', PStr ''write script''), (''need'', PList [])],
        PDict [(''agent'', PStr ''web'')],
        PDict [(''agent'', PStr ''dancer''), (''id'', PStr ''7''), (''task'', PStr ''dance'')]])])) ''x''))
     = 2
   \<and> fst (decode (payload_env (PDict [(''plan'', PList
       [PDict [(''agent'', PStr ''Coder''), (''task'', PStr ''write script''), (''need'', PList [])],
        PDict [(''agent'', PStr ''web'')],
        PDict [(''agent'', PStr ''dancer''), (''id'', PStr ''7''), (''task'', PStr ''dance'')]])])) ''x'') ! 1
     = [(''agent'', PStr ''Casual''), (''id'', PStr ''7''), (''task'', PStr ''dance'')]"
proof -
  let ?items = "[PDict [(''agent'', PStr ''Coder''), (''task'', PStr ''write script''), (''need'', PList [])],
        PDict [(''agent'', PStr ''web'')],
        PDict [(''agent'', PStr ''dancer''), (''id'', PStr ''7''), (''task'', PStr ''dance'')]]"
  let ?payload = "[(''plan'', PList ?items)]"
  let ?env = "payload_env (PDict ?payload)"
  have a: "find_blocks ?env ''x'' = Inr [''x'']" by code_simp
  have b: "fst (parse_block ?env (clean ''x'')) = Inr (PDict ?payload)" by code_simp
  have c: "map_of ?payload ''plan'' = Some (PList ?items)" by simp
  have o: "task_object (PDict [(''agent'', PStr ''Coder''), (''task'', PStr ''write script''), (''need'', PList [])])"
          "task_object (PDict [(''agent'', PStr ''web'')])"
          "task_object (PDict [(''agent'', PStr ''dancer''), (''id'', PStr ''7''), (''task'', PStr ''dance'')])"
    by code_simp+
  then have d: "\<forall>t \<in> set ?items. task_object t" by simp
  have k: "kept ?items = [?items ! 0, ?items ! 2]" by code_simp
  have n: "normalized 1 (item_dict (?items ! 2))
             = [(''agent'', PStr ''Casual''), (''id'', PStr ''7''), (''task'', PStr ''dance'')]"
    by code_simp
  from decode_well_formed[OF a b c d]
  have l: "length (fst (decode ?env ''x'')) = length (kept ?items)"
    and e: "\<forall>k < length (kept ?items).
               fst (decode ?env ''x'') ! k = normalized k (item_dict (kept ?items ! k))"
    by blast+
  from l k have l2: "length (fst (decode ?env ''x'')) = 2" by simp
  from e k have "fst (decode ?env ''x'') ! 1 = normalized 1 (item_dict (?items ! 2))" by simp
  with n have e2: "fst (decode ?env ''x'') ! 1
      = [(''agent'', PStr ''Casual''), (''id'', PStr ''7''), (''task'', PStr ''dance'')]" by simp
  from a b o l2 e2 show ?thesis by blast
qed

section \<open>A decoded task without \<open>"need"\<close>\<close>

lemma process_step_missing_need:
  assumes "agents_tasks ! i = (task_name, task)" and "map_of task ''need'' = None"
  shows "\<exists>e. fst (process_step env goal speech_module agents_tasks agents_work_result i st) = Inl e"
  using assms by (simp add: process_step_def split: pyval.splits option.splits)

lemma synthesize_has_need: "\<forall>t \<in> set (synthesize k names). map_of t ''need'' \<noteq> None"
  by (induction names arbitrary: k) auto

text \<open>
  C9. The decoder copies \<open>"need"\<close> only when the item has one, and fallback tasks always
  have one. When the loop reaches a task without \<open>"need"\<close>, the iteration raises: the
  exception is the \<open>KeyError\<close> of \<open>task["need"]\<close> whenever the steps before that read (the
  description's \<open>lower()\<close>, \<open>task['agent']\<close>, the speech module) raise nothing, and then the
  result store and the state are untouched, no executor having been called.
\<close>

theorem missing_need_faults:
  assumes "i < length agents_tasks"
      and "\<not> stop env i"
      and "agents_tasks ! i = (task_name, task)"
      and "map_of task ''need'' = None"
  shows "(\<exists>e. fst (process_loop (Suc fuel) env goal speech_module agents_tasks
                     agents_work_result i answer st) = Raises e)
         \<and> (task_name = PStr name \<and> map_of task ''agent'' = Some a
              \<and> (case speech_module of None \<Rightarrow> None | Some speak \<Rightarrow> speak task_name a) = None
            \<longrightarrow> process_loop (Suc fuel) env goal speech_module agents_tasks
                   agents_work_result i answer st
                 = (Raises KeyError, agents_work_result, st))
         \<and> (\<forall>t \<in> set (synthesize k names). map_of t ''need'' \<noteq> None)
         \<and> (build_agent n d = Some r \<longrightarrow> map_of r ''need'' = map_of d ''need'')"
proof (intro conjI impI)
  from process_step_missing_need[OF assms(3,4)] obtain e where
    "fst (process_step env goal speech_module agents_tasks agents_work_result i st) = Inl e"
    by blast
  then obtain results st' where
    "process_step env goal speech_module agents_tasks agents_work_result i st = (Inl e, results, st')"
    by (cases "process_step env goal speech_module agents_tasks agents_work_result i st") auto
  with assms(1,2)
  have "fst (process_loop (Suc fuel) env goal speech_module agents_tasks
               agents_work_result i answer st) = Raises e"
    by (subst process_loop.simps) simp
  then show "\<exists>e. fst (process_loop (Suc fuel) env goal speech_module agents_tasks
                     agents_work_result i answer st) = Raises e" ..
next
  assume h: "task_name = PStr name \<and> map_of task ''agent'' = Some a
              \<and> (case speech_module of None \<Rightarrow> None | Some speak \<Rightarrow> speak task_name a) = None"
  then have h1: "task_name = PStr name" and h2: "map_of task ''agent'' = Some a"
    and h3: "(case speech_module of None \<Rightarrow> None | Some speak \<Rightarrow> speak (PStr name) a) = None"
    by (auto split: option.splits)
  have "process_step env goal speech_module agents_tasks agents_work_result i st
          = (Inl KeyError, agents_work_result, st)"
    using assms(3,4) h1 h2 h3 by (simp add: process_step_def)
  with assms(1,2)
  show "process_loop (Suc fuel) env goal speech_module agents_tasks agents_work_result i answer st
          = (Raises KeyError, agents_work_result, st)"
    by (subst process_loop.simps) simp
next
  show "\<forall>t \<in> set (synthesize k names). map_of t ''need'' \<noteq> None"
    by (rule synthesize_has_need)
next
  assume "build_agent n d = Some r"
  then show "map_of r ''need'' = map_of d ''need''"
    by (auto simp: build_agent_def split: option.splits)
qed

theorem missing_need_faults_witness:
  "0 < length [(PStr ''t'', [(''agent'', PStr ''coder''), (''id'', PStr ''1''), (''task'', PStr ''t'')])]
   \<and> \<not> stop (idle_env []) 0
   \<and> [(PStr ''t'', [(''agent'', PStr ''coder''), (''id'', PStr ''1''), (''task'', PStr ''t'')])] ! 0
       = (PStr ''t'', [(''agent'', PStr ''coder''), (''id'', PStr ''1''), (''task'', PStr ''t'')])
   \<and> map_of [(''agent'', PStr ''coder''), (''id'', PStr ''1''), (''task'', PStr ''t'')] ''need'' = None
   \<and> map_of [(''agent'', PStr ''coder''), (''id'', PStr ''1''), (''task'', PStr ''t'')] ''agent''
       = Some (PStr ''coder'')
   \<and> process_loop (Suc 0) (idle_env []) ''goal'' None
        [(PStr ''t'', [(''agent'', PStr ''coder''), (''id'', PStr ''1''), (''task'', PStr ''t'')])]
        [] 0 None init_state
       = (Raises KeyError, [], init_state)
   \<and> build_agent 0 [(''agent'', PStr ''coder''), (''task'', PStr ''t'')]
       = Some [(''agent'', PStr ''coder''), (''id'', PStr ''1''), (''task'', PStr ''t'')]
   \<and> fst (process 1
        (payload_env (PDict [(''plan'', PList [PDict [(''agent'', PStr ''coder''), (''task'', PStr ''t'')]])]))
        ''goal'' None init_state) = Raises KeyError"
proof -
  let ?task = "[(''agent'', PStr ''coder''), (''id'', PStr ''1''), (''task'', PStr ''t'')]"
  let ?plan = "[(PStr ''t'', ?task)]"
  have a: "0 < length ?plan" by simp
  have b: "\<not> stop (idle_env []) 0" by (simp add: idle_env_def)
  have c: "?plan ! 0 = (PStr ''t'', ?task)" by simp
  have d: "map_of ?task ''need'' = None" by simp
  have e: "map_of ?task ''agent'' = Some (PStr ''coder'')" by simp
  have f: "(case (None :: speech) of None \<Rightarrow> None | Some speak \<Rightarrow> speak (PStr ''t'') (PStr ''coder'')) = None"
    by simp
  have g: "build_agent 0 [(''agent'', PStr ''coder''), (''task'', PStr ''t'')] = Some ?task"
    by code_simp
  have h: "fst (process 1
        (payload_env (PDict [(''plan'', PList [PDict [(''agent'', PStr ''coder''), (''task'', PStr ''t'')]])]))
        ''goal'' None init_state) = Raises KeyError"
    by code_simp
  from missing_need_faults[OF a b c d, of 0 "''goal''" None "[]" None init_state "''t''" "PStr ''coder''"] e f
  have "process_loop (Suc 0) (idle_env []) ''goal'' None ?plan [] 0 None init_state
       = (Raises KeyError, [], init_state)"
    by blast
  with a b c d e g h show ?thesis by blast
qed

end
